theory Spec2Isabelle
  imports Main "HOL-Library.Word"
begin

unbundle bit_operations_syntax

section \<open>Documents\<close>

text \<open>
  The controllers \<^verbatim>\<open>api/controllers/hotel.js\<close> and \<^verbatim>\<open>api/controllers/room.js\<close> work on
  two collections of a document store through the models \<^verbatim>\<open>Hotel\<close> and \<^verbatim>\<open>Room\<close>.
  Document identifiers are opaque; they are natural numbers here. Numbers are integers
  throughout: prices, counts and the numeric values of query parameters.
\<close>

type_synonym oid = nat

text \<open>
  A request carries an identifier as a string (\<^verbatim>\<open>req.params.id\<close>, \<^verbatim>\<open>req.params.hotelid\<close>),
  and the driver casts the string before it asks the store. \<open>ObjectId i\<close> is a string that
  is the text of the identifier \<open>i\<close>; \<open>NotObjectId t\<close> is a string \<open>t\<close> that the cast refuses,
  such as \<^verbatim>\<open>"7"\<close>. Which strings the cast accepts is the driver's matter.
\<close>

datatype id_text = ObjectId oid | NotObjectId string

record room_number =
  number :: int
  unavailableDates :: "nat list"

text \<open>
  Modelled from the spec: the fields of a Room (\<^verbatim>\<open>api/models/Room.js\<close> is not among the
  sources). \<open>room_body\<close> is what a request body carries, \<open>room\<close> the stored document.
\<close>

record room_body =
  room_title :: string
  price :: int
  maxPeople :: int
  room_desc :: string
  roomNumbers :: "room_number list"

record room =
  room_id :: oid
  room_attrs :: room_body

text \<open>
  Modelled from the spec: the fields of a Hotel (\<^verbatim>\<open>api/models/Hotel.js\<close> is not among the
  sources). \<open>rooms\<close> holds the identifiers of the hotel's rooms in insertion order.
\<close>

record hotel =
  hotel_id :: oid
  name :: string
  hotel_type :: string
  city :: string
  address :: string
  distance :: string
  photos :: "string list"
  title :: string
  description :: string
  rating :: "int option"
  rooms :: "oid list"
  cheapestPrice :: int
  featured :: bool

section \<open>Errors, responses and the store\<close>

text \<open>
  \<open>StoreError\<close> is any rejection of a driver call (store unreachable, validation, write
  conflict), \<open>CastError\<close> names the path whose value could not be cast, \<open>TypeError\<close> is
  JavaScript's own, raised by a property access on \<^verbatim>\<open>null\<close> or \<^verbatim>\<open>undefined\<close>.
\<close>

datatype error = StoreError string | CastError string | TypeError string

datatype json =
    JNull
  | JText string
  | JInt int
  | JArray "json list"
  | JObject "(string \<times> json) list"
  | JHotel hotel
  | JRoom room

text \<open>
  What a handler does to its caller, in the order it does it: \<open>Json c b\<close> is
  \<^verbatim>\<open>res.status(c).json(b)\<close>, \<open>Next e\<close> is \<^verbatim>\<open>next(e)\<close>, and \<open>Uncaught e\<close> is an exception
  thrown outside every \<^verbatim>\<open>try\<close> block. \<^verbatim>\<open>res\<close> and \<^verbatim>\<open>next\<close> belong to the caller: the model
  records the calls made on them and takes them not to throw.
\<close>

datatype effect = Json nat json | Next error | Uncaught error

text \<open>
  The store: both collections in storage order, the next fresh identifier, and the
  outcomes of the driver calls to come. Each driver call takes the head of \<open>pending\<close>:
  \<open>Some e\<close> makes that call reject with \<open>e\<close> and leave the collections alone, \<open>None\<close> (or
  an exhausted list) lets it through.
\<close>

record db =
  hotel_coll :: "hotel list"
  room_coll :: "room list"
  nextId :: oid
  pending :: "error option list"

definition attempt :: "db \<Rightarrow> error option \<times> db" where
  "attempt s = (case pending s of [] \<Rightarrow> (None, s) | f # fs \<Rightarrow> (f, s\<lparr>pending := fs\<rparr>))"

definition calm :: "db \<Rightarrow> bool" where
  "calm s = list_all (\<lambda>f. f = None) (pending s)"

section \<open>The driver\<close>

fun update_first :: "('a \<Rightarrow> bool) \<Rightarrow> ('a \<Rightarrow> 'a) \<Rightarrow> 'a list \<Rightarrow> 'a list" where
  "update_first p f [] = []"
| "update_first p f (x # xs) = (if p x then f x # xs else x # update_first p f xs)"

fun delete_first :: "('a \<Rightarrow> bool) \<Rightarrow> 'a list \<Rightarrow> 'a list" where
  "delete_first p [] = []"
| "delete_first p (x # xs) = (if p x then xs else x # delete_first p xs)"

text \<open>
  \<^verbatim>\<open>Model.findById(id)\<close> casts \<^verbatim>\<open>id\<close> first: a string that is no identifier is rejected with
  a cast error on \<^verbatim>\<open>_id\<close> and the store is not asked. Otherwise the call resolves to the
  document, or to \<^verbatim>\<open>null\<close> when there is none. The other calls by identifier cast in the
  same way.
\<close>

definition Hotel_findById :: "id_text \<Rightarrow> db \<Rightarrow> (error + hotel option) \<times> db" where
  "Hotel_findById rid s =
     (case rid of
        NotObjectId t \<Rightarrow> (Inl (CastError ''_id''), s)
      | ObjectId i \<Rightarrow>
          (case attempt s of
             (Some e, s1) \<Rightarrow> (Inl e, s1)
           | (None, s1) \<Rightarrow> (Inr (find (\<lambda>h. hotel_id h = i) (hotel_coll s1)), s1)))"

definition Room_findById :: "id_text \<Rightarrow> db \<Rightarrow> (error + room option) \<times> db" where
  "Room_findById rid s =
     (case rid of
        NotObjectId t \<Rightarrow> (Inl (CastError ''_id''), s)
      | ObjectId i \<Rightarrow>
          (case attempt s of
             (Some e, s1) \<Rightarrow> (Inl e, s1)
           | (None, s1) \<Rightarrow> (Inr (find (\<lambda>r. room_id r = i) (room_coll s1)), s1)))"

text \<open>
  The update documents the controllers send: \<^verbatim>\<open>$set\<close>, \<^verbatim>\<open>$push\<close> and \<^verbatim>\<open>$pull\<close>. \<^verbatim>\<open>$push\<close> is
  given the identifier of a saved document. \<^verbatim>\<open>$pull\<close> is given the string of the request;
  a string that is no identifier equals no element of \<^verbatim>\<open>rooms\<close>.
\<close>

datatype hotel_assign =
    SetName string
  | SetType string
  | SetCity string
  | SetAddress string
  | SetDistance string
  | SetPhotos "string list"
  | SetTitle string
  | SetDescription string
  | SetRating "int option"
  | SetRooms "oid list"
  | SetCheapestPrice int
  | SetFeatured bool

fun assign :: "hotel \<Rightarrow> hotel_assign \<Rightarrow> hotel" where
  "assign h (SetName v) = h\<lparr>name := v\<rparr>"
| "assign h (SetType v) = h\<lparr>hotel_type := v\<rparr>"
| "assign h (SetCity v) = h\<lparr>city := v\<rparr>"
| "assign h (SetAddress v) = h\<lparr>address := v\<rparr>"
| "assign h (SetDistance v) = h\<lparr>distance := v\<rparr>"
| "assign h (SetPhotos v) = h\<lparr>photos := v\<rparr>"
| "assign h (SetTitle v) = h\<lparr>title := v\<rparr>"
| "assign h (SetDescription v) = h\<lparr>description := v\<rparr>"
| "assign h (SetRating v) = h\<lparr>rating := v\<rparr>"
| "assign h (SetRooms v) = h\<lparr>rooms := v\<rparr>"
| "assign h (SetCheapestPrice v) = h\<lparr>cheapestPrice := v\<rparr>"
| "assign h (SetFeatured v) = h\<lparr>featured := v\<rparr>"

datatype hotel_update = UpdSet "hotel_assign list" | UpdPush oid | UpdPull id_text

fun apply_update :: "hotel_update \<Rightarrow> hotel \<Rightarrow> hotel" where
  "apply_update (UpdSet as) h = foldl assign h as"
| "apply_update (UpdPush r) h = h\<lparr>rooms := rooms h @ [r]\<rparr>"
| "apply_update (UpdPull (ObjectId r)) h = h\<lparr>rooms := filter (\<lambda>x. x \<noteq> r) (rooms h)\<rparr>"
| "apply_update (UpdPull (NotObjectId t)) h = h"

text \<open>
  \<^verbatim>\<open>Hotel.findByIdAndUpdate(id, update, {new: returnNew})\<close> resolves to the document
  (as it was, or as it is now with \<^verbatim>\<open>new: true\<close>), or to \<^verbatim>\<open>null\<close> when there is none,
  in which case nothing is written.
\<close>

definition Hotel_findByIdAndUpdate ::
  "id_text \<Rightarrow> hotel_update \<Rightarrow> bool \<Rightarrow> db \<Rightarrow> (error + hotel option) \<times> db" where
  "Hotel_findByIdAndUpdate rid u returnNew s =
     (case rid of
        NotObjectId t \<Rightarrow> (Inl (CastError ''_id''), s)
      | ObjectId i \<Rightarrow>
          (case attempt s of
             (Some e, s1) \<Rightarrow> (Inl e, s1)
           | (None, s1) \<Rightarrow>
               (case find (\<lambda>h. hotel_id h = i) (hotel_coll s1) of
                  None \<Rightarrow> (Inr None, s1)
                | Some h \<Rightarrow>
                    (Inr (Some (if returnNew then apply_update u h else h)),
                     s1\<lparr>hotel_coll :=
                          update_first (\<lambda>h. hotel_id h = i) (apply_update u) (hotel_coll s1)\<rparr>))))"

definition Hotel_findByIdAndDelete :: "id_text \<Rightarrow> db \<Rightarrow> (error + hotel option) \<times> db" where
  "Hotel_findByIdAndDelete rid s =
     (case rid of
        NotObjectId t \<Rightarrow> (Inl (CastError ''_id''), s)
      | ObjectId i \<Rightarrow>
          (case attempt s of
             (Some e, s1) \<Rightarrow> (Inl e, s1)
           | (None, s1) \<Rightarrow>
               (Inr (find (\<lambda>h. hotel_id h = i) (hotel_coll s1)),
                s1\<lparr>hotel_coll := delete_first (\<lambda>h. hotel_id h = i) (hotel_coll s1)\<rparr>)))"

definition Room_findByIdAndDelete :: "id_text \<Rightarrow> db \<Rightarrow> (error + room option) \<times> db" where
  "Room_findByIdAndDelete rid s =
     (case rid of
        NotObjectId t \<Rightarrow> (Inl (CastError ''_id''), s)
      | ObjectId i \<Rightarrow>
          (case attempt s of
             (Some e, s1) \<Rightarrow> (Inl e, s1)
           | (None, s1) \<Rightarrow>
               (Inr (find (\<lambda>r. room_id r = i) (room_coll s1)),
                s1\<lparr>room_coll := delete_first (\<lambda>r. room_id r = i) (room_coll s1)\<rparr>)))"

text \<open>
  \<^verbatim>\<open>new Room(body)\<close> gives the document its identifier; \<^verbatim>\<open>save()\<close> inserts it at the end
  of the collection.
\<close>

definition new_Room :: "room_body \<Rightarrow> db \<Rightarrow> room \<times> db" where
  "new_Room b s = (\<lparr>room_id = nextId s, room_attrs = b\<rparr>, s\<lparr>nextId := Suc (nextId s)\<rparr>)"

definition Room_save :: "room \<Rightarrow> db \<Rightarrow> (error + room) \<times> db" where
  "Room_save r s =
     (case attempt s of
        (Some e, s1) \<Rightarrow> (Inl e, s1)
      | (None, s1) \<Rightarrow> (Inr r, s1\<lparr>room_coll := room_coll s1 @ [r]\<rparr>))"

definition Hotel_countDocuments :: "(hotel \<Rightarrow> bool) \<Rightarrow> db \<Rightarrow> (error + nat) \<times> db" where
  "Hotel_countDocuments p s =
     (case attempt s of
        (Some e, s1) \<Rightarrow> (Inl e, s1)
      | (None, s1) \<Rightarrow> (Inr (length (filter p (hotel_coll s1))), s1))"

text \<open>
  \<^verbatim>\<open>Promise.all\<close> over calls that were all issued: every call runs, in order; the result
  is the list of their values, or the first rejection.
\<close>

fun promise_all :: "(db \<Rightarrow> (error + 'a) \<times> db) list \<Rightarrow> db \<Rightarrow> (error + 'a list) \<times> db" where
  "promise_all [] s = (Inr [], s)"
| "promise_all (p # ps) s =
     (case p s of (r, s1) \<Rightarrow>
        (case promise_all ps s1 of (rs, s2) \<Rightarrow>
           (case r of
              Inl e \<Rightarrow> (Inl e, s2)
            | Inr x \<Rightarrow> (case rs of Inl e \<Rightarrow> (Inl e, s2) | Inr xs \<Rightarrow> (Inr (x # xs), s2)))))"

section \<open>Hotel and room handlers that address one document\<close>

definition nullable :: "('a \<Rightarrow> json) \<Rightarrow> 'a option \<Rightarrow> json" where
  "nullable f d = (case d of None \<Rightarrow> JNull | Some x \<Rightarrow> f x)"

definition getHotel :: "id_text \<Rightarrow> db \<Rightarrow> effect list \<times> db" where
  "getHotel i s =
     (case Hotel_findById i s of
        (Inl err, s1) \<Rightarrow> ([Next err], s1)
      | (Inr hotel, s1) \<Rightarrow> ([Json 200 (nullable JHotel hotel)], s1))"

definition updateHotel :: "id_text \<Rightarrow> hotel_assign list \<Rightarrow> db \<Rightarrow> effect list \<times> db" where
  "updateHotel i body s =
     (case Hotel_findByIdAndUpdate i (UpdSet body) True s of
        (Inl err, s1) \<Rightarrow> ([Next err], s1)
      | (Inr updatedHotel, s1) \<Rightarrow> ([Json 200 (nullable JHotel updatedHotel)], s1))"

definition deleteHotel :: "id_text \<Rightarrow> db \<Rightarrow> effect list \<times> db" where
  "deleteHotel i s =
     (case Hotel_findByIdAndDelete i s of
        (Inl err, s1) \<Rightarrow> ([Next err], s1)
      | (Inr _, s1) \<Rightarrow> ([Json 200 (JText ''Hotel has been deleted'')], s1))"

definition getRoom :: "id_text \<Rightarrow> db \<Rightarrow> effect list \<times> db" where
  "getRoom i s =
     (case Room_findById i s of
        (Inl err, s1) \<Rightarrow> ([Next err], s1)
      | (Inr room, s1) \<Rightarrow> ([Json 200 (nullable JRoom room)], s1))"

text \<open>
  \<^verbatim>\<open>getHotelRooms\<close>: the hotel is looked up, then every identifier of its \<^verbatim>\<open>rooms\<close> is
  looked up, all under one \<^verbatim>\<open>try\<close>. Reading \<^verbatim>\<open>hotel.rooms\<close> of a \<^verbatim>\<open>null\<close> hotel throws. The
  elements of \<^verbatim>\<open>rooms\<close> are identifiers of saved Rooms, so their cast goes through.
\<close>

definition getHotelRooms :: "id_text \<Rightarrow> db \<Rightarrow> effect list \<times> db" where
  "getHotelRooms i s =
     (case Hotel_findById i s of
        (Inl error, s1) \<Rightarrow> ([Next error], s1)
      | (Inr None, s1) \<Rightarrow> ([Next (TypeError ''Cannot read properties of null'')], s1)
      | (Inr (Some hotel), s1) \<Rightarrow>
          (case promise_all (map (\<lambda>room. Room_findById (ObjectId room)) (rooms hotel)) s1 of
             (Inl error, s2) \<Rightarrow> ([Next error], s2)
           | (Inr list, s2) \<Rightarrow> ([Json 200 (JArray (map (nullable JRoom) list))], s2)))"

section \<open>Creating and deleting rooms\<close>

text \<open>
  Both handlers write twice. The second write sits in a \<^verbatim>\<open>try\<close> of its own whose \<^verbatim>\<open>catch\<close>
  calls \<^verbatim>\<open>next(error)\<close> and falls through to the response that follows.
\<close>

definition createRoom :: "id_text \<Rightarrow> room_body \<Rightarrow> db \<Rightarrow> effect list \<times> db" where
  "createRoom hotelId body s =
     (case new_Room body s of (newRoom, s0) \<Rightarrow>
        (case Room_save newRoom s0 of
           (Inl error, s1) \<Rightarrow> ([Next error], s1)
         | (Inr savedRoom, s1) \<Rightarrow>
             (case Hotel_findByIdAndUpdate hotelId (UpdPush (room_id savedRoom)) False s1 of
                (Inl error, s2) \<Rightarrow> ([Next error, Json 200 (JRoom savedRoom)], s2)
              | (Inr _, s2) \<Rightarrow> ([Json 200 (JRoom savedRoom)], s2))))"

definition deleteRoom :: "id_text \<Rightarrow> id_text \<Rightarrow> db \<Rightarrow> effect list \<times> db" where
  "deleteRoom hotelId i s =
     (case Room_findByIdAndDelete i s of
        (Inl err, s1) \<Rightarrow> ([Next err], s1)
      | (Inr _, s1) \<Rightarrow>
          (case Hotel_findByIdAndUpdate hotelId (UpdPull i) False s1 of
             (Inl error, s2) \<Rightarrow> ([Next error, Json 200 (JText ''Room has been deleted'')], s2)
           | (Inr _, s2) \<Rightarrow> ([Json 200 (JText ''Room has been deleted'')], s2)))"

section \<open>Query parameters\<close>

text \<open>
  The values a query parameter can hold here: absent, a number, or a string. A query is
  the list of its keys and values; \<open>param\<close> reads a key as JavaScript reads a property.
\<close>

datatype jsval = Undefined | Num int | Str string

definition param :: "(string \<times> jsval) list \<Rightarrow> string \<Rightarrow> jsval" where
  "param q k = (case map_of q k of None \<Rightarrow> Undefined | Some v \<Rightarrow> v)"

text \<open>
  A JavaScript number, as far as this development computes with numbers: \<^verbatim>\<open>NaN\<close>, or an
  integer \<open>n\<close> with \<open>\<bar>n\<bar> \<le> 2^53\<close>, which a double holds exactly. A conversion whose result
  is any other number (a fraction, a larger integer that a double would round, an
  infinity) is not computed: it is \<open>None\<close>, and so is whatever depends on it.
\<close>

datatype number = NaN | Finite int

definition safe :: "int \<Rightarrow> bool" where
  "safe n = (\<bar>n\<bar> \<le> 2 ^ 53)"

text \<open>
  JavaScript's conversion of a string to a number. Blanks around the string are dropped
  (the ASCII ones; a string with other bytes at its ends is not computed). The empty
  string is 0. An optional sign and decimal digits give their value. A string whose
  first character cannot begin a numeral (it is no digit, sign, point or \<^verbatim>\<open>I\<close>) is \<^verbatim>\<open>NaN\<close>.
  Every other string (\<^verbatim>\<open>"1.5"\<close>, \<^verbatim>\<open>"1e3"\<close>, \<^verbatim>\<open>"0x1F"\<close>, \<^verbatim>\<open>"Infinity"\<close>, \<^verbatim>\<open>"12abc"\<close>) is not computed.
\<close>

definition is_blank :: "char \<Rightarrow> bool" where
  "is_blank c = (c \<in> set [CHR '' '', CHR 0x09, CHR 0x0A, CHR 0x0B, CHR 0x0C, CHR 0x0D])"

definition trim :: "string \<Rightarrow> string" where
  "trim s = rev (dropWhile is_blank (rev (dropWhile is_blank s)))"

definition is_digit :: "char \<Rightarrow> bool" where
  "is_digit c = (48 \<le> (of_char c :: nat) \<and> (of_char c :: nat) \<le> 57)"

definition digits :: "string \<Rightarrow> int option" where
  "digits ds =
     (if ds \<noteq> [] \<and> list_all is_digit ds
      then Some (foldl (\<lambda>n c. 10 * n + (int (of_char c) - 48)) 0 ds)
      else None)"

definition signed_digits :: "string \<Rightarrow> int option" where
  "signed_digits t =
     (case t of
        [] \<Rightarrow> None
      | c # cs \<Rightarrow>
          if c = CHR ''-'' then map_option uminus (digits cs)
          else if c = CHR ''+'' then digits cs
          else digits (c # cs))"

definition may_begin_numeral :: "char \<Rightarrow> bool" where
  "may_begin_numeral c =
     (is_digit c \<or> c \<in> set [CHR ''+'', CHR ''-'', CHR ''.'', CHR ''I''] \<or> 128 \<le> (of_char c :: nat))"

definition StringToNumber :: "string \<Rightarrow> number option" where
  "StringToNumber s =
     (case trim s of
        [] \<Rightarrow> Some (Finite 0)
      | c # cs \<Rightarrow>
          if may_begin_numeral c
          then (case signed_digits (c # cs) of
                  None \<Rightarrow> None
                | Some n \<Rightarrow> if safe n then Some (Finite n) else None)
          else Some NaN)"

text \<open>\<^verbatim>\<open>ToNumber\<close>: \<^verbatim>\<open>undefined\<close> is \<^verbatim>\<open>NaN\<close>; \<open>Num n\<close> is the number \<open>n\<close>.\<close>

fun ToNumber :: "jsval \<Rightarrow> number option" where
  "ToNumber Undefined = Some NaN"
| "ToNumber (Num n) = (if safe n then Some (Finite n) else None)"
| "ToNumber (Str s) = StringToNumber s"

text \<open>\<^verbatim>\<open>ToInt32\<close>: \<^verbatim>\<open>NaN\<close> is 0, a number is taken modulo \<open>2^32\<close>.\<close>

fun ToInt32 :: "number \<Rightarrow> 32 word" where
  "ToInt32 NaN = 0"
| "ToInt32 (Finite k) = word_of_int k"

text \<open>The operator \<^verbatim>\<open>a | b\<close>, whose result is a signed 32-bit number.\<close>

definition bit_or :: "jsval \<Rightarrow> jsval \<Rightarrow> int option" where
  "bit_or a b =
     (case (ToNumber a, ToNumber b) of
        (Some x, Some y) \<Rightarrow> Some (sint (ToInt32 x OR ToInt32 y))
      | _ \<Rightarrow> None)"

fun truthy :: "jsval \<Rightarrow> bool" where
  "truthy Undefined = False"
| "truthy (Num n) = (n \<noteq> 0)"
| "truthy (Str s) = (s \<noteq> [])"

text \<open>The operator \<^verbatim>\<open>a || b\<close>.\<close>

definition logical_or :: "jsval \<Rightarrow> jsval \<Rightarrow> jsval" where
  "logical_or a b = (if truthy a then a else b)"

section \<open>Listing hotels\<close>

text \<open>
  The store casts a value to the type of the path it is compared with. For a number
  path: \<^verbatim>\<open>undefined\<close> and the empty string stay empty, a number is itself, a string is
  converted, and \<^verbatim>\<open>NaN\<close> is a cast error. \<open>None\<close> is a number that is not computed.
\<close>

definition castNumber :: "string \<Rightarrow> jsval \<Rightarrow> (error + int option) option" where
  "castNumber path v =
     (case v of
        Undefined \<Rightarrow> Some (Inr None)
      | Num n \<Rightarrow> if safe n then Some (Inr (Some n)) else None
      | Str s \<Rightarrow>
          if s = [] then Some (Inr None)
          else (case StringToNumber s of
                  None \<Rightarrow> None
                | Some NaN \<Rightarrow> Some (Inl (CastError path))
                | Some (Finite n) \<Rightarrow> Some (Inr (Some n))))"

text \<open>
  The schema of \<^verbatim>\<open>Hotel\<close> is not among the sources, so the way the store reads an
  exact-match condition \<^verbatim>\<open>{path: value}\<close> is a parameter: \<open>None\<close> when the value cannot be
  cast to the path's type, otherwise the set of hotels that satisfy the condition.
\<close>

type_synonym hotel_paths = "string \<Rightarrow> jsval \<Rightarrow> (hotel \<Rightarrow> bool) option"

text \<open>\<^verbatim>\<open>{$gt: a, $lt: b}\<close> on a number path; a comparison with an empty bound never holds.\<close>

definition between :: "int option \<Rightarrow> int option \<Rightarrow> int \<Rightarrow> bool" where
  "between a b x = (case (a, b) of (Some lo, Some hi) \<Rightarrow> lo < x \<and> x < hi | _ \<Rightarrow> False)"

text \<open>
  A filter object is the list of its keys, in the order of their insertion, each with
  its condition: an exact match, or the range on \<^verbatim>\<open>cheapestPrice\<close>. \<open>put\<close> writes a key as
  an object literal does: over the value the key has, or as a new last key.
\<close>

datatype condition = Equals jsval | PriceRange jsval jsval

fun put :: "string \<Rightarrow> condition \<Rightarrow> (string \<times> condition) list \<Rightarrow> (string \<times> condition) list" where
  "put k c [] = [(k, c)]"
| "put k c ((k', c') # kcs) = (if k' = k then (k, c) # kcs else (k', c') # put k c kcs)"

text \<open>
  The cast of one condition. Of the two bounds of the range, \<^verbatim>\<open>$lt\<close>, the last key, is
  cast first.
\<close>

fun cast_condition :: "hotel_paths \<Rightarrow> string \<times> condition \<Rightarrow> (error + (hotel \<Rightarrow> bool)) option" where
  "cast_condition paths (k, Equals v) =
     (case paths k v of None \<Rightarrow> Some (Inl (CastError k)) | Some p \<Rightarrow> Some (Inr p))"
| "cast_condition paths (k, PriceRange gt lt) =
     (case castNumber k lt of
        None \<Rightarrow> None
      | Some (Inl e) \<Rightarrow> Some (Inl e)
      | Some (Inr hi) \<Rightarrow>
          (case castNumber k gt of
             None \<Rightarrow> None
           | Some (Inl e) \<Rightarrow> Some (Inl e)
           | Some (Inr lo) \<Rightarrow> Some (Inr (\<lambda>h. between lo hi (cheapestPrice h)))))"

text \<open>The cast of a list of conditions, from its head on; it stops at the first failure.\<close>

fun cast_conditions ::
  "hotel_paths \<Rightarrow> (string \<times> condition) list \<Rightarrow> (error + (hotel \<Rightarrow> bool)) option" where
  "cast_conditions paths [] = Some (Inr (\<lambda>h. True))"
| "cast_conditions paths (kc # kcs) =
     (case cast_condition paths kc of
        None \<Rightarrow> None
      | Some (Inl e) \<Rightarrow> Some (Inl e)
      | Some (Inr p) \<Rightarrow>
          (case cast_conditions paths kcs of
             None \<Rightarrow> None
           | Some (Inl e) \<Rightarrow> Some (Inl e)
           | Some (Inr q) \<Rightarrow> Some (Inr (\<lambda>h. p h \<and> q h))))"

text \<open>\<^verbatim>\<open>limit(n)\<close>: no limit when empty or 0; a negative limit counts as its absolute value.\<close>

definition limited :: "int option \<Rightarrow> 'a list \<Rightarrow> 'a list" where
  "limited l xs = (case l of None \<Rightarrow> xs | Some n \<Rightarrow> if n = 0 then xs else take (nat \<bar>n\<bar>) xs)"

text \<open>
  \<^verbatim>\<open>Hotel.find(filter).limit(limit)\<close>. \<^verbatim>\<open>limit\<close> casts its argument at once. The filter is cast
  when the query is run, from its last key to its first, before the store is asked.
\<close>

definition Hotel_find ::
  "hotel_paths \<Rightarrow> (string \<times> condition) list \<Rightarrow> jsval \<Rightarrow> db \<Rightarrow> ((error + hotel list) \<times> db) option" where
  "Hotel_find paths conditions limit s =
     (case castNumber ''limit'' limit of
        None \<Rightarrow> None
      | Some (Inl e) \<Rightarrow> Some (Inl e, s)
      | Some (Inr l) \<Rightarrow>
          (case cast_conditions paths (rev conditions) of
             None \<Rightarrow> None
           | Some (Inl e) \<Rightarrow> Some (Inl e, s)
           | Some (Inr p) \<Rightarrow>
               (case attempt s of
                  (Some e, s1) \<Rightarrow> Some (Inl e, s1)
                | (None, s1) \<Rightarrow> Some (Inr (limited l (filter p (hotel_coll s1))), s1))))"

text \<open>
  \<^verbatim>\<open>getHotels\<close>. The filter is \<^verbatim>\<open>{...others, cheapestPrice: {$gt: min | 1, $lt: max || 999}}\<close>,
  where \<^verbatim>\<open>others\<close> is the query without \<^verbatim>\<open>min\<close> and \<^verbatim>\<open>max\<close> (\<^verbatim>\<open>limit\<close> stays in it). The result is
  \<open>None\<close> when the query holds a number that is not computed.
\<close>

definition getHotels ::
  "hotel_paths \<Rightarrow> (string \<times> jsval) list \<Rightarrow> db \<Rightarrow> (effect list \<times> db) option" where
  "getHotels paths query s =
     (let qmin = param query ''min''; qmax = param query ''max'';
          others = filter (\<lambda>(k, v). k \<noteq> ''min'' \<and> k \<noteq> ''max'') query
      in case bit_or qmin (Num 1) of
           None \<Rightarrow> None
         | Some gt \<Rightarrow>
             (case Hotel_find paths
                     (put ''cheapestPrice'' (PriceRange (Num gt) (logical_or qmax (Num 999)))
                        (map (\<lambda>(k, v). (k, Equals v)) others))
                     (param query ''limit'') s of
                None \<Rightarrow> None
              | Some (Inl err, s1) \<Rightarrow> Some ([Next err], s1)
              | Some (Inr hotels, s1) \<Rightarrow> Some ([Json 200 (JArray (map JHotel hotels))], s1)))"

section \<open>Counting hotels\<close>

text \<open>
  \<^verbatim>\<open>s.split(",")\<close>: the pieces between the commas, read from left to right; \<open>piece\<close> is
  the piece being read, held in reverse. The result is never empty.
\<close>

fun split_from :: "char \<Rightarrow> string \<Rightarrow> string \<Rightarrow> string list" where
  "split_from c piece [] = [rev piece]"
| "split_from c piece (x # xs) =
     (if x = c then rev piece # split_from c [] xs else split_from c (x # piece) xs)"

definition split :: "char \<Rightarrow> string \<Rightarrow> string list" where
  "split c s = split_from c [] s"

text \<open>
  \<^verbatim>\<open>countByCity\<close> splits \<^verbatim>\<open>req.query.cities\<close> before its \<^verbatim>\<open>try\<close>: without a string there, the
  handler throws.
\<close>

definition countByCity :: "(string \<times> jsval) list \<Rightarrow> db \<Rightarrow> effect list \<times> db" where
  "countByCity query s =
     (case param query ''cities'' of
        Str cs \<Rightarrow>
          (let cities = split CHR '','' cs
           in case promise_all (map (\<lambda>c. Hotel_countDocuments (\<lambda>h. city h = c)) cities) s of
                (Inl err, s1) \<Rightarrow> ([Next err], s1)
              | (Inr list, s1) \<Rightarrow> ([Json 200 (JArray (map (\<lambda>n. JInt (int n)) list))], s1))
      | _ \<Rightarrow> ([Uncaught (TypeError ''req.query.cities.split'')], s))"

text \<open>
  The caller writes the city names into one string with commas between them; \<open>join\<close> is
  that string.
\<close>

fun join :: "char \<Rightarrow> string list \<Rightarrow> string" where
  "join c [] = []"
| "join c [x] = x"
| "join c (x # y # ys) = x @ c # join c (y # ys)"

text \<open>\<^verbatim>\<open>await\<close> inside a \<^verbatim>\<open>try\<close>: a rejection skips the rest.\<close>

definition await :: "(db \<Rightarrow> (error + 'a) \<times> db) \<Rightarrow> ('a \<Rightarrow> db \<Rightarrow> (error + 'b) \<times> db) \<Rightarrow> db \<Rightarrow> (error + 'b) \<times> db" where
  "await p k s = (case p s of (Inl e, s1) \<Rightarrow> (Inl e, s1) | (Inr x, s1) \<Rightarrow> k x s1)"

definition type_count :: "string \<Rightarrow> nat \<Rightarrow> json" where
  "type_count t n = JObject [(''type'', JText t), (''count'', JInt (int n))]"

definition countByType :: "db \<Rightarrow> effect list \<times> db" where
  "countByType s =
     (case
        await (Hotel_countDocuments (\<lambda>h. hotel_type h = ''hotel'')) (\<lambda>hotelCount.
        await (Hotel_countDocuments (\<lambda>h. hotel_type h = ''apartment'')) (\<lambda>apartmentCount.
        await (Hotel_countDocuments (\<lambda>h. hotel_type h = ''resort'')) (\<lambda>resortCount.
        await (Hotel_countDocuments (\<lambda>h. hotel_type h = ''villa'')) (\<lambda>villaCount.
        await (Hotel_countDocuments (\<lambda>h. hotel_type h = ''cabin'')) (\<lambda>cabinCount s5.
          (Inr (JArray
                 [type_count ''hotel'' hotelCount,
                  type_count ''apartments'' apartmentCount,
                  type_count ''resorts'' resortCount,
                  type_count ''villas'' villaCount,
                  type_count ''cabins'' cabinCount]), s5)))))) s
      of
        (Inl err, s1) \<Rightarrow> ([Next err], s1)
      | (Inr body, s1) \<Rightarrow> ([Json 200 body], s1))"

text \<open>
  The store keeps the identifiers of a collection apart. For the rooms: no two stored
  Rooms share an identifier, and every identifier in use lies below the next fresh one.
\<close>

definition unique_rooms :: "db \<Rightarrow> bool" where
  "unique_rooms s =
     (distinct (map room_id (room_coll s)) \<and> list_all (\<lambda>r. room_id r < nextId s) (room_coll s))"

section \<open>A sample store\<close>

text \<open>
  Three hotels and three rooms, used to run the handlers on concrete input. Hotel 1 owns
  rooms 10 and 11; hotel 2 lists rooms 12 and 13, and room 13 is not in the room collection.
\<close>

definition sample_hotel :: "oid \<Rightarrow> string \<Rightarrow> string \<Rightarrow> int \<Rightarrow> oid list \<Rightarrow> hotel" where
  "sample_hotel i c t p rs =
     \<lparr>hotel_id = i, name = ''h'', hotel_type = t, city = c, address = [], distance = [],
      photos = [], title = [], description = [], rating = None, rooms = rs, cheapestPrice = p,
      featured = False\<rparr>"

definition sample_room :: "oid \<Rightarrow> room" where
  "sample_room i =
     \<lparr>room_id = i,
      room_attrs = \<lparr>room_title = ''r'', price = 80, maxPeople = 2, room_desc = [], roomNumbers = []\<rparr>\<rparr>"

definition sample_db :: db where
  "sample_db =
     \<lparr>hotel_coll =
        [sample_hotel 1 ''Paris'' ''hotel'' 50 [10, 11],
         sample_hotel 2 ''Paris'' ''apartment'' 100 [12, 13],
         sample_hotel 3 ''Tokyo'' ''hotel'' 150 []],
      room_coll = [sample_room 10, sample_room 11, sample_room 12],
      nextId = 20,
      pending = []\<rparr>"

definition no_paths :: hotel_paths where
  "no_paths = (\<lambda>k v. None)"

section \<open>Basic facts about the driver\<close>

lemma attempt_calm: "calm s \<Longrightarrow> fst (attempt s) = None"
  by (cases "pending s") (simp_all add: attempt_def calm_def)

lemma attempt_colls [simp]:
  "hotel_coll (snd (attempt s)) = hotel_coll s"
  "room_coll (snd (attempt s)) = room_coll s"
  "nextId (snd (attempt s)) = nextId s"
  by (cases "pending s"; simp add: attempt_def)+

lemma attempt_keeps_calm: "calm s \<Longrightarrow> calm (snd (attempt s))"
  by (cases "pending s") (simp_all add: attempt_def calm_def)

lemma attempt_None: "calm s \<Longrightarrow> attempt s = (None, snd (attempt s))"
  using attempt_calm [of s] by (cases "attempt s") simp

lemma delete_first_absent: "find p xs = None \<Longrightarrow> delete_first p xs = xs"
  by (induction xs) (auto split: if_splits)

lemma attempt_passes:
  assumes "calm s"
  obtains s1 where "attempt s = (None, s1)" "calm s1" "hotel_coll s1 = hotel_coll s"
    "room_coll s1 = room_coll s" "nextId s1 = nextId s"
proof -
  have "attempt s = (None, snd (attempt s))" using assms by (rule attempt_None)
  moreover have "calm (snd (attempt s))" using assms by (rule attempt_keeps_calm)
  ultimately show thesis using that [of "snd (attempt s)"] by simp
qed

lemmas number_simps =
  StringToNumber_def trim_def is_blank_def digits_def signed_digits_def is_digit_def
  may_begin_numeral_def safe_def bit_or_def

lemmas sample_simps = sample_db_def sample_hotel_def sample_room_def calm_def

section \<open>Driver calls that go through\<close>

lemma find_absent: "i \<notin> f ` set xs \<Longrightarrow> find (\<lambda>x. f x = i) xs = None"
  by (auto simp: find_None_iff)

lemma update_first_absent: "find p xs = None \<Longrightarrow> update_first p f xs = xs"
  by (induction xs) (auto split: if_splits)

lemma find_update_first:
  "find p xs = Some x \<Longrightarrow> p (f x) \<Longrightarrow> find p (update_first p f xs) = Some (f x)"
  by (induction xs) (auto split: if_splits)

lemma find_delete_first:
  "distinct (map f xs) \<Longrightarrow> find (\<lambda>x. f x = i) (delete_first (\<lambda>x. f x = i) xs) = None"
proof (induction xs)
  case Nil
  then show ?case by simp
next
  case (Cons a xs)
  show ?case
  proof (cases "f a = i")
    case True
    with Cons.prems have "i \<notin> f ` set xs" by auto
    then have "find (\<lambda>x. f x = i) xs = None" by (rule find_absent)
    with True show ?thesis by simp
  next
    case False
    with Cons show ?thesis by simp
  qed
qed

lemma Hotel_findById_passes:
  assumes "calm s"
  obtains s1 where "Hotel_findById (ObjectId i) s = (Inr (find (\<lambda>h. hotel_id h = i) (hotel_coll s)), s1)"
    "calm s1" "hotel_coll s1 = hotel_coll s" "room_coll s1 = room_coll s"
proof -
  obtain s1 where "attempt s = (None, s1)" "calm s1" "hotel_coll s1 = hotel_coll s"
    "room_coll s1 = room_coll s"
    using assms by (rule attempt_passes)
  then show thesis using that [of s1] by (simp add: Hotel_findById_def)
qed

lemma Room_findById_passes:
  assumes "calm s"
  obtains s1 where "Room_findById (ObjectId i) s = (Inr (find (\<lambda>r. room_id r = i) (room_coll s)), s1)"
    "calm s1" "hotel_coll s1 = hotel_coll s" "room_coll s1 = room_coll s"
proof -
  obtain s1 where "attempt s = (None, s1)" "calm s1" "hotel_coll s1 = hotel_coll s"
    "room_coll s1 = room_coll s"
    using assms by (rule attempt_passes)
  then show thesis using that [of s1] by (simp add: Room_findById_def)
qed

lemma Hotel_findByIdAndUpdate_passes:
  assumes "calm s"
  obtains d s1 where "Hotel_findByIdAndUpdate (ObjectId i) u n s = (Inr d, s1)"
    "calm s1" "room_coll s1 = room_coll s"
    "hotel_coll s1 = update_first (\<lambda>h. hotel_id h = i) (apply_update u) (hotel_coll s)"
proof -
  obtain s0 where a: "attempt s = (None, s0)" "calm s0" "hotel_coll s0 = hotel_coll s"
    "room_coll s0 = room_coll s"
    using assms by (rule attempt_passes)
  show thesis
  proof (cases "find (\<lambda>h. hotel_id h = i) (hotel_coll s)")
    case None
    then show ?thesis
      using a that [of None s0]
      by (simp add: Hotel_findByIdAndUpdate_def update_first_absent)
  next
    case (Some h)
    then show ?thesis
      using a that [of "Some (if n then apply_update u h else h)"
          "s0\<lparr>hotel_coll := update_first (\<lambda>h. hotel_id h = i) (apply_update u) (hotel_coll s0)\<rparr>"]
      by (simp add: Hotel_findByIdAndUpdate_def calm_def)
  qed
qed

lemma Hotel_findByIdAndDelete_passes:
  assumes "calm s"
  obtains d s1 where "Hotel_findByIdAndDelete (ObjectId i) s = (Inr d, s1)"
    "calm s1" "room_coll s1 = room_coll s"
    "hotel_coll s1 = delete_first (\<lambda>h. hotel_id h = i) (hotel_coll s)"
proof -
  obtain s0 where a: "attempt s = (None, s0)" "calm s0" "hotel_coll s0 = hotel_coll s"
    "room_coll s0 = room_coll s"
    using assms by (rule attempt_passes)
  then show thesis
    using that [of "find (\<lambda>h. hotel_id h = i) (hotel_coll s0)"
        "s0\<lparr>hotel_coll := delete_first (\<lambda>h. hotel_id h = i) (hotel_coll s0)\<rparr>"]
    by (simp add: Hotel_findByIdAndDelete_def calm_def)
qed

lemma Room_findByIdAndDelete_passes:
  assumes "calm s"
  obtains d s1 where "Room_findByIdAndDelete (ObjectId i) s = (Inr d, s1)"
    "calm s1" "hotel_coll s1 = hotel_coll s"
    "room_coll s1 = delete_first (\<lambda>r. room_id r = i) (room_coll s)"
proof -
  obtain s0 where a: "attempt s = (None, s0)" "calm s0" "hotel_coll s0 = hotel_coll s"
    "room_coll s0 = room_coll s"
    using assms by (rule attempt_passes)
  then show thesis
    using that [of "find (\<lambda>r. room_id r = i) (room_coll s0)"
        "s0\<lparr>room_coll := delete_first (\<lambda>r. room_id r = i) (room_coll s0)\<rparr>"]
    by (simp add: Room_findByIdAndDelete_def calm_def)
qed

lemma Room_save_passes:
  assumes "calm s"
  obtains s1 where "Room_save r s = (Inr r, s1)"
    "calm s1" "hotel_coll s1 = hotel_coll s" "room_coll s1 = room_coll s @ [r]"
proof -
  obtain s0 where a: "attempt s = (None, s0)" "calm s0" "hotel_coll s0 = hotel_coll s"
    "room_coll s0 = room_coll s"
    using assms by (rule attempt_passes)
  then show thesis
    using that [of "s0\<lparr>room_coll := room_coll s0 @ [r]\<rparr>"]
    by (simp add: Room_save_def calm_def)
qed

lemma Hotel_countDocuments_passes:
  assumes "calm s"
  obtains s1 where "Hotel_countDocuments p s = (Inr (length (filter p (hotel_coll s))), s1)"
    "calm s1" "hotel_coll s1 = hotel_coll s"
proof -
  obtain s1 where "attempt s = (None, s1)" "calm s1" "hotel_coll s1 = hotel_coll s"
    using assms by (rule attempt_passes)
  then show thesis using that [of s1] by (simp add: Hotel_countDocuments_def)
qed

section \<open>Identifiers that match no document\<close>

text \<open>
  C4, as the code has it. None of the handlers tests the document the driver returns, and
  the driver answers an identifier that matches nothing with \<^verbatim>\<open>null\<close>, not with an error. So
  for an identifier that matches no stored document and a store that answers, \<^verbatim>\<open>getHotel\<close>,
  \<^verbatim>\<open>updateHotel\<close> and \<^verbatim>\<open>getRoom\<close> respond 200 with \<^verbatim>\<open>null\<close>, \<^verbatim>\<open>deleteHotel\<close> responds 200
  with its confirmation, \<^verbatim>\<open>next\<close> is not called, and the hotel collection is unchanged.
  For a string that is no identifier at all, each of the four handlers passes the cast
  error to \<^verbatim>\<open>next\<close>, sends no response and leaves the store as it was.
\<close>

theorem absent_id_answers_200:
  assumes "calm s"
  shows "(i \<notin> hotel_id ` set (hotel_coll s) \<longrightarrow>
            fst (getHotel (ObjectId i) s) = [Json 200 JNull]
          \<and> fst (updateHotel (ObjectId i) body s) = [Json 200 JNull]
          \<and> hotel_coll (snd (updateHotel (ObjectId i) body s)) = hotel_coll s
          \<and> fst (deleteHotel (ObjectId i) s) = [Json 200 (JText ''Hotel has been deleted'')]
          \<and> hotel_coll (snd (deleteHotel (ObjectId i) s)) = hotel_coll s)
       \<and> (i \<notin> room_id ` set (room_coll s) \<longrightarrow> fst (getRoom (ObjectId i) s) = [Json 200 JNull])
       \<and> getHotel (NotObjectId t) s = ([Next (CastError ''_id'')], s)
       \<and> updateHotel (NotObjectId t) body s = ([Next (CastError ''_id'')], s)
       \<and> deleteHotel (NotObjectId t) s = ([Next (CastError ''_id'')], s)
       \<and> getRoom (NotObjectId t) s = ([Next (CastError ''_id'')], s)"
proof (intro conjI impI)
  assume "i \<notin> room_id ` set (room_coll s)"
  then have "find (\<lambda>r. room_id r = i) (room_coll s) = None" by (rule find_absent)
  moreover obtain s1 where
    "Room_findById (ObjectId i) s = (Inr (find (\<lambda>r. room_id r = i) (room_coll s)), s1)"
    using assms by (rule Room_findById_passes)
  ultimately show "fst (getRoom (ObjectId i) s) = [Json 200 JNull]"
    by (simp add: getRoom_def nullable_def)
next
  assume "i \<notin> hotel_id ` set (hotel_coll s)"
  then have none: "find (\<lambda>h. hotel_id h = i) (hotel_coll s) = None" by (rule find_absent)
  obtain s0 where a: "attempt s = (None, s0)" "hotel_coll s0 = hotel_coll s"
    using assms by (rule attempt_passes)
  show "fst (getHotel (ObjectId i) s) = [Json 200 JNull]"
    using none a by (simp add: getHotel_def Hotel_findById_def nullable_def)
  show "fst (updateHotel (ObjectId i) body s) = [Json 200 JNull]"
    using none a by (simp add: updateHotel_def Hotel_findByIdAndUpdate_def nullable_def)
  show "hotel_coll (snd (updateHotel (ObjectId i) body s)) = hotel_coll s"
    using none a by (simp add: updateHotel_def Hotel_findByIdAndUpdate_def)
  show "fst (deleteHotel (ObjectId i) s) = [Json 200 (JText ''Hotel has been deleted'')]"
    using none a by (simp add: deleteHotel_def Hotel_findByIdAndDelete_def)
  show "hotel_coll (snd (deleteHotel (ObjectId i) s)) = hotel_coll s"
    using none a by (simp add: deleteHotel_def Hotel_findByIdAndDelete_def delete_first_absent)
next
  show "getHotel (NotObjectId t) s = ([Next (CastError ''_id'')], s)"
    by (simp add: getHotel_def Hotel_findById_def)
  show "updateHotel (NotObjectId t) body s = ([Next (CastError ''_id'')], s)"
    by (simp add: updateHotel_def Hotel_findByIdAndUpdate_def)
  show "deleteHotel (NotObjectId t) s = ([Next (CastError ''_id'')], s)"
    by (simp add: deleteHotel_def Hotel_findByIdAndDelete_def)
  show "getRoom (NotObjectId t) s = ([Next (CastError ''_id'')], s)"
    by (simp add: getRoom_def Room_findById_def)
qed

theorem absent_id_answers_200_witness:
  "calm sample_db
   \<and> 7 \<notin> hotel_id ` set (hotel_coll sample_db)
   \<and> 7 \<notin> room_id ` set (room_coll sample_db)
   \<and> fst (getHotel (ObjectId 7) sample_db) = [Json 200 JNull]
   \<and> fst (updateHotel (ObjectId 7) [SetCity ''Rome''] sample_db) = [Json 200 JNull]
   \<and> hotel_coll (snd (updateHotel (ObjectId 7) [SetCity ''Rome''] sample_db)) = hotel_coll sample_db
   \<and> fst (deleteHotel (ObjectId 7) sample_db) = [Json 200 (JText ''Hotel has been deleted'')]
   \<and> hotel_coll (snd (deleteHotel (ObjectId 7) sample_db)) = hotel_coll sample_db
   \<and> fst (getRoom (ObjectId 7) sample_db) = [Json 200 JNull]
   \<and> getHotel (NotObjectId ''7'') sample_db = ([Next (CastError ''_id'')], sample_db)
   \<and> updateHotel (NotObjectId ''7'') [SetCity ''Rome''] sample_db =
       ([Next (CastError ''_id'')], sample_db)
   \<and> deleteHotel (NotObjectId ''7'') sample_db = ([Next (CastError ''_id'')], sample_db)
   \<and> getRoom (NotObjectId ''7'') sample_db = ([Next (CastError ''_id'')], sample_db)"
proof -
  have c: "calm sample_db" by (simp add: sample_simps)
  have h: "7 \<notin> hotel_id ` set (hotel_coll sample_db)" by (simp add: sample_simps)
  have r: "7 \<notin> room_id ` set (room_coll sample_db)" by (simp add: sample_simps)
  show ?thesis
    using c h r absent_id_answers_200 [OF c, of 7 "[SetCity ''Rome'']" "''7''"] by simp
qed

text \<open>
  C4 as the spec states it fails: identifier 7 matches no document of the sample store,
  and all four handlers answer it with a 200 response and no error.
\<close>

theorem absent_id_not_found_counterexample:
  "7 \<notin> hotel_id ` set (hotel_coll sample_db)
   \<and> 7 \<notin> room_id ` set (room_coll sample_db)
   \<and> getHotel (ObjectId 7) sample_db = ([Json 200 JNull], sample_db)
   \<and> updateHotel (ObjectId 7) [SetCity ''Rome''] sample_db = ([Json 200 JNull], sample_db)
   \<and> deleteHotel (ObjectId 7) sample_db = ([Json 200 (JText ''Hotel has been deleted'')], sample_db)
   \<and> getRoom (ObjectId 7) sample_db = ([Json 200 JNull], sample_db)"
  by (simp add: getHotel_def updateHotel_def deleteHotel_def getRoom_def Hotel_findById_def
      Hotel_findByIdAndUpdate_def Hotel_findByIdAndDelete_def Room_findById_def attempt_def
      nullable_def sample_simps)

section \<open>Creating a room\<close>

text \<open>
  C10, as the code has it. When \<^verbatim>\<open>hotelId\<close> is an identifier that matches no stored Hotel
  and the store answers both calls, \<^verbatim>\<open>createRoom\<close> stores the Room, responds 200 with it,
  never calls \<^verbatim>\<open>next\<close>, and leaves every Hotel as it was: the Room is linked to nothing
  and nobody is told. When \<^verbatim>\<open>hotelId\<close> is a string that is no identifier, the Room is stored
  and returned in the same way and no Hotel changes, but the cast error of the update is
  passed to \<^verbatim>\<open>next\<close> before the response.
\<close>

theorem createRoom_unknown_hotel:
  assumes "calm s"
  shows "(h \<notin> hotel_id ` set (hotel_coll s) \<longrightarrow>
            fst (createRoom (ObjectId h) body s) =
              [Json 200 (JRoom \<lparr>room_id = nextId s, room_attrs = body\<rparr>)]
          \<and> room_coll (snd (createRoom (ObjectId h) body s)) =
              room_coll s @ [\<lparr>room_id = nextId s, room_attrs = body\<rparr>]
          \<and> hotel_coll (snd (createRoom (ObjectId h) body s)) = hotel_coll s)
       \<and> fst (createRoom (NotObjectId t) body s) =
           [Next (CastError ''_id''), Json 200 (JRoom \<lparr>room_id = nextId s, room_attrs = body\<rparr>)]
       \<and> room_coll (snd (createRoom (NotObjectId t) body s)) =
           room_coll s @ [\<lparr>room_id = nextId s, room_attrs = body\<rparr>]
       \<and> hotel_coll (snd (createRoom (NotObjectId t) body s)) = hotel_coll s"
proof -
  let ?r = "\<lparr>room_id = nextId s, room_attrs = body\<rparr>"
  let ?s0 = "s\<lparr>nextId := Suc (nextId s)\<rparr>"
  have new: "new_Room body s = (?r, ?s0)" by (simp add: new_Room_def)
  have "calm ?s0" using assms(1) by (simp add: calm_def)
  then obtain s1 where save: "Room_save ?r ?s0 = (Inr ?r, s1)" "calm s1"
    "hotel_coll s1 = hotel_coll ?s0" "room_coll s1 = room_coll ?s0 @ [?r]"
    by (rule Room_save_passes)
  have known: "fst (createRoom (ObjectId h) body s) = [Json 200 (JRoom ?r)]
       \<and> room_coll (snd (createRoom (ObjectId h) body s)) = room_coll s @ [?r]
       \<and> hotel_coll (snd (createRoom (ObjectId h) body s)) = hotel_coll s"
    if absent: "h \<notin> hotel_id ` set (hotel_coll s)"
  proof -
    from absent have none: "find (\<lambda>x. hotel_id x = h) (hotel_coll s1) = None"
      using save(3) by (simp add: find_absent)
    obtain d s2 where upd:
      "Hotel_findByIdAndUpdate (ObjectId h) (UpdPush (nextId s)) False s1 = (Inr d, s2)"
      "room_coll s2 = room_coll s1"
      "hotel_coll s2 =
         update_first (\<lambda>x. hotel_id x = h) (apply_update (UpdPush (nextId s))) (hotel_coll s1)"
      using save(2) by (rule Hotel_findByIdAndUpdate_passes)
    have "createRoom (ObjectId h) body s = ([Json 200 (JRoom ?r)], s2)"
      using new save(1) upd(1) by (simp add: createRoom_def)
    then show ?thesis
      using save(3,4) upd(2,3) none by (simp add: update_first_absent)
  qed
  have "createRoom (NotObjectId t) body s = ([Next (CastError ''_id''), Json 200 (JRoom ?r)], s1)"
    using new save(1) by (simp add: createRoom_def Hotel_findByIdAndUpdate_def)
  then have cast: "fst (createRoom (NotObjectId t) body s) =
        [Next (CastError ''_id''), Json 200 (JRoom ?r)]
      \<and> room_coll (snd (createRoom (NotObjectId t) body s)) = room_coll s @ [?r]
      \<and> hotel_coll (snd (createRoom (NotObjectId t) body s)) = hotel_coll s"
    using save(3,4) by simp
  show ?thesis
    using known cast by blast
qed

theorem createRoom_unknown_hotel_witness:
  "calm sample_db
   \<and> 7 \<notin> hotel_id ` set (hotel_coll sample_db)
   \<and> fst (createRoom (ObjectId 7) (room_attrs (sample_room 0)) sample_db) =
       [Json 200 (JRoom (sample_room 20))]
   \<and> room_coll (snd (createRoom (ObjectId 7) (room_attrs (sample_room 0)) sample_db)) =
       [sample_room 10, sample_room 11, sample_room 12, sample_room 20]
   \<and> hotel_coll (snd (createRoom (ObjectId 7) (room_attrs (sample_room 0)) sample_db)) =
       hotel_coll sample_db
   \<and> fst (createRoom (NotObjectId ''7'') (room_attrs (sample_room 0)) sample_db) =
       [Next (CastError ''_id''), Json 200 (JRoom (sample_room 20))]"
proof -
  have c: "calm sample_db" by (simp add: sample_simps)
  have h: "7 \<notin> hotel_id ` set (hotel_coll sample_db)" by (simp add: sample_simps)
  show ?thesis
    using c h createRoom_unknown_hotel [OF c, of 7 "room_attrs (sample_room 0)" "''7''"]
    by (simp add: sample_simps)
qed

text \<open>
  C10 as stated fails: the string \<^verbatim>\<open>"7"\<close> is the identifier of no Hotel of the sample
  store, and \<^verbatim>\<open>createRoom\<close> with it passes an error to \<^verbatim>\<open>next\<close> before it responds with the
  stored Room.
\<close>

theorem createRoom_unknown_hotel_counterexample:
  "createRoom (NotObjectId ''7'') (room_attrs (sample_room 0)) sample_db =
     ([Next (CastError ''_id''), Json 200 (JRoom (sample_room 20))],
      sample_db\<lparr>room_coll := [sample_room 10, sample_room 11, sample_room 12, sample_room 20],
                nextId := 21\<rparr>)"
  by (simp add: createRoom_def new_Room_def Room_save_def Hotel_findByIdAndUpdate_def attempt_def
      sample_simps)

text \<open>With both writes through, the Room is stored and its identifier ends the Hotel's list.\<close>

lemma createRoom_both_writes:
  assumes "calm s" and "find (\<lambda>h. hotel_id h = hotelId) (hotel_coll s) = Some H"
  shows "fst (createRoom (ObjectId hotelId) body s) = [Json 200 (JRoom \<lparr>room_id = nextId s, room_attrs = body\<rparr>)]
       \<and> room_coll (snd (createRoom (ObjectId hotelId) body s)) =
           room_coll s @ [\<lparr>room_id = nextId s, room_attrs = body\<rparr>]
       \<and> find (\<lambda>h. hotel_id h = hotelId) (hotel_coll (snd (createRoom (ObjectId hotelId) body s))) =
           Some (H\<lparr>rooms := rooms H @ [nextId s]\<rparr>)"
proof -
  let ?r = "\<lparr>room_id = nextId s, room_attrs = body\<rparr>"
  let ?s0 = "s\<lparr>nextId := Suc (nextId s)\<rparr>"
  have new: "new_Room body s = (?r, ?s0)" by (simp add: new_Room_def)
  have "calm ?s0" using assms(1) by (simp add: calm_def)
  then obtain s1 where save: "Room_save ?r ?s0 = (Inr ?r, s1)" "calm s1"
    "hotel_coll s1 = hotel_coll ?s0" "room_coll s1 = room_coll ?s0 @ [?r]"
    by (rule Room_save_passes)
  obtain d s2 where upd: "Hotel_findByIdAndUpdate (ObjectId hotelId) (UpdPush (nextId s)) False s1 = (Inr d, s2)"
    "room_coll s2 = room_coll s1"
    "hotel_coll s2 = update_first (\<lambda>h. hotel_id h = hotelId) (apply_update (UpdPush (nextId s))) (hotel_coll s1)"
    using save(2) by (rule Hotel_findByIdAndUpdate_passes)
  have id: "hotel_id H = hotelId"
    using assms(2) by (auto simp: find_Some_iff)
  have "createRoom (ObjectId hotelId) body s = ([Json 200 (JRoom ?r)], s2)"
    using new save(1) upd(1) by (simp add: createRoom_def)
  moreover have "find (\<lambda>h. hotel_id h = hotelId) (hotel_coll s2) = Some (apply_update (UpdPush (nextId s)) H)"
    using assms(2) id save(3) upd(3) by (simp add: find_update_first)
  ultimately show ?thesis
    using save(4) upd(2) by simp
qed

text \<open>
  C2. \<^verbatim>\<open>createRoom\<close> saves the Room first and updates the Hotel second. When the save
  goes through and the update is rejected with \<open>e\<close>, the handler calls \<^verbatim>\<open>next(e)\<close> and then
  responds 200 with the saved Room, which stays in the collection. When the save itself
  is rejected, the handler calls \<^verbatim>\<open>next\<close> and stops: the update is never issued. When the
  store answers both calls, the Room is stored and its identifier is appended to the
  list of the Hotel. An update that fails in the cast of \<^verbatim>\<open>hotelId\<close> is reported in the same
  way as one that the store rejects.
\<close>

theorem createRoom_link_failure:
  "(pending s = None # Some e # fs \<longrightarrow>
      createRoom (ObjectId hotelId) body s =
        ([Next e, Json 200 (JRoom \<lparr>room_id = nextId s, room_attrs = body\<rparr>)],
         s\<lparr>room_coll := room_coll s @ [\<lparr>room_id = nextId s, room_attrs = body\<rparr>],
           nextId := Suc (nextId s), pending := fs\<rparr>))
   \<and> (pending s = Some e # fs \<longrightarrow>
      createRoom (ObjectId hotelId) body s = ([Next e], s\<lparr>nextId := Suc (nextId s), pending := fs\<rparr>))
   \<and> (pending s = None # fs \<longrightarrow>
      createRoom (NotObjectId t) body s =
        ([Next (CastError ''_id''), Json 200 (JRoom \<lparr>room_id = nextId s, room_attrs = body\<rparr>)],
         s\<lparr>room_coll := room_coll s @ [\<lparr>room_id = nextId s, room_attrs = body\<rparr>],
           nextId := Suc (nextId s), pending := fs\<rparr>))
   \<and> (calm s \<and> find (\<lambda>h. hotel_id h = hotelId) (hotel_coll s) = Some H \<longrightarrow>
      fst (createRoom (ObjectId hotelId) body s) = [Json 200 (JRoom \<lparr>room_id = nextId s, room_attrs = body\<rparr>)]
      \<and> room_coll (snd (createRoom (ObjectId hotelId) body s)) =
          room_coll s @ [\<lparr>room_id = nextId s, room_attrs = body\<rparr>]
      \<and> find (\<lambda>h. hotel_id h = hotelId) (hotel_coll (snd (createRoom (ObjectId hotelId) body s))) =
          Some (H\<lparr>rooms := rooms H @ [nextId s]\<rparr>))"
proof (intro conjI impI)
  assume "pending s = None # Some e # fs"
  then show "createRoom (ObjectId hotelId) body s =
        ([Next e, Json 200 (JRoom \<lparr>room_id = nextId s, room_attrs = body\<rparr>)],
         s\<lparr>room_coll := room_coll s @ [\<lparr>room_id = nextId s, room_attrs = body\<rparr>],
           nextId := Suc (nextId s), pending := fs\<rparr>)"
    by (simp add: createRoom_def new_Room_def Room_save_def Hotel_findByIdAndUpdate_def attempt_def)
next
  assume "pending s = Some e # fs"
  then show "createRoom (ObjectId hotelId) body s = ([Next e], s\<lparr>nextId := Suc (nextId s), pending := fs\<rparr>)"
    by (simp add: createRoom_def new_Room_def Room_save_def attempt_def)
next
  assume "pending s = None # fs"
  then show "createRoom (NotObjectId t) body s =
        ([Next (CastError ''_id''), Json 200 (JRoom \<lparr>room_id = nextId s, room_attrs = body\<rparr>)],
         s\<lparr>room_coll := room_coll s @ [\<lparr>room_id = nextId s, room_attrs = body\<rparr>],
           nextId := Suc (nextId s), pending := fs\<rparr>)"
    by (simp add: createRoom_def new_Room_def Room_save_def Hotel_findByIdAndUpdate_def attempt_def)
next
  assume "calm s \<and> find (\<lambda>h. hotel_id h = hotelId) (hotel_coll s) = Some H"
  then have "fst (createRoom (ObjectId hotelId) body s) = [Json 200 (JRoom \<lparr>room_id = nextId s, room_attrs = body\<rparr>)]
       \<and> room_coll (snd (createRoom (ObjectId hotelId) body s)) =
           room_coll s @ [\<lparr>room_id = nextId s, room_attrs = body\<rparr>]
       \<and> find (\<lambda>h. hotel_id h = hotelId) (hotel_coll (snd (createRoom (ObjectId hotelId) body s))) =
           Some (H\<lparr>rooms := rooms H @ [nextId s]\<rparr>)"
    by (simp add: createRoom_both_writes)
  then show "fst (createRoom (ObjectId hotelId) body s) = [Json 200 (JRoom \<lparr>room_id = nextId s, room_attrs = body\<rparr>)]"
    and "room_coll (snd (createRoom (ObjectId hotelId) body s)) =
           room_coll s @ [\<lparr>room_id = nextId s, room_attrs = body\<rparr>]"
    and "find (\<lambda>h. hotel_id h = hotelId) (hotel_coll (snd (createRoom (ObjectId hotelId) body s))) =
           Some (H\<lparr>rooms := rooms H @ [nextId s]\<rparr>)"
    by simp_all
qed

theorem createRoom_link_failure_witness:
  "pending (sample_db\<lparr>pending := [None, Some (StoreError ''down'')]\<rparr>) =
     None # Some (StoreError ''down'') # []
   \<and> createRoom (ObjectId 1) (room_attrs (sample_room 0)) (sample_db\<lparr>pending := [None, Some (StoreError ''down'')]\<rparr>) =
       ([Next (StoreError ''down''), Json 200 (JRoom (sample_room 20))],
        sample_db\<lparr>room_coll := [sample_room 10, sample_room 11, sample_room 12, sample_room 20],
                  nextId := 21\<rparr>)
   \<and> pending (sample_db\<lparr>pending := [Some (StoreError ''down'')]\<rparr>) = Some (StoreError ''down'') # []
   \<and> createRoom (ObjectId 1) (room_attrs (sample_room 0)) (sample_db\<lparr>pending := [Some (StoreError ''down'')]\<rparr>) =
       ([Next (StoreError ''down'')], sample_db\<lparr>nextId := 21\<rparr>)
   \<and> pending (sample_db\<lparr>pending := [None]\<rparr>) = None # []
   \<and> createRoom (NotObjectId ''7'') (room_attrs (sample_room 0)) (sample_db\<lparr>pending := [None]\<rparr>) =
       ([Next (CastError ''_id''), Json 200 (JRoom (sample_room 20))],
        sample_db\<lparr>room_coll := [sample_room 10, sample_room 11, sample_room 12, sample_room 20],
                  nextId := 21\<rparr>)
   \<and> calm sample_db
   \<and> find (\<lambda>h. hotel_id h = 1) (hotel_coll sample_db) =
       Some (sample_hotel 1 ''Paris'' ''hotel'' 50 [10, 11])
   \<and> fst (createRoom (ObjectId 1) (room_attrs (sample_room 0)) sample_db) = [Json 200 (JRoom (sample_room 20))]
   \<and> room_coll (snd (createRoom (ObjectId 1) (room_attrs (sample_room 0)) sample_db)) =
       [sample_room 10, sample_room 11, sample_room 12, sample_room 20]
   \<and> find (\<lambda>h. hotel_id h = 1) (hotel_coll (snd (createRoom (ObjectId 1) (room_attrs (sample_room 0)) sample_db))) =
       Some (sample_hotel 1 ''Paris'' ''hotel'' 50 [10, 11, 20])"
proof -
  let ?down = "StoreError ''down''"
  let ?b = "room_attrs (sample_room 0)"
  have c: "calm sample_db" by (simp add: sample_simps)
  have f: "find (\<lambda>h. hotel_id h = 1) (hotel_coll sample_db) =
      Some (sample_hotel 1 ''Paris'' ''hotel'' 50 [10, 11])"
    by (simp add: sample_simps)
  have one: "createRoom (ObjectId 1) ?b (sample_db\<lparr>pending := [None, Some ?down]\<rparr>) =
       ([Next ?down, Json 200 (JRoom (sample_room 20))],
        sample_db\<lparr>room_coll := [sample_room 10, sample_room 11, sample_room 12, sample_room 20],
                  nextId := 21\<rparr>)"
    using createRoom_link_failure
      [where s = "sample_db\<lparr>pending := [None, Some ?down]\<rparr>" and e = ?down and fs = "[]"
        and hotelId = 1 and body = ?b]
    by (simp add: sample_simps)
  have two: "createRoom (ObjectId 1) ?b (sample_db\<lparr>pending := [Some ?down]\<rparr>) =
       ([Next ?down], sample_db\<lparr>nextId := 21\<rparr>)"
    using createRoom_link_failure
      [where s = "sample_db\<lparr>pending := [Some ?down]\<rparr>" and e = ?down and fs = "[]"
        and hotelId = 1 and body = ?b]
    by (simp add: sample_simps)
  have cast: "createRoom (NotObjectId ''7'') ?b (sample_db\<lparr>pending := [None]\<rparr>) =
       ([Next (CastError ''_id''), Json 200 (JRoom (sample_room 20))],
        sample_db\<lparr>room_coll := [sample_room 10, sample_room 11, sample_room 12, sample_room 20],
                  nextId := 21\<rparr>)"
    using createRoom_link_failure
      [where s = "sample_db\<lparr>pending := [None]\<rparr>" and fs = "[]" and body = ?b and t = "''7''"]
    by (simp add: sample_simps)
  have three: "fst (createRoom (ObjectId 1) ?b sample_db) = [Json 200 (JRoom (sample_room 20))]
     \<and> room_coll (snd (createRoom (ObjectId 1) ?b sample_db)) =
         [sample_room 10, sample_room 11, sample_room 12, sample_room 20]
     \<and> find (\<lambda>h. hotel_id h = 1) (hotel_coll (snd (createRoom (ObjectId 1) ?b sample_db))) =
         Some (sample_hotel 1 ''Paris'' ''hotel'' 50 [10, 11, 20])"
    using createRoom_link_failure
      [where s = sample_db and hotelId = 1 and body = ?b
        and H = "sample_hotel 1 ''Paris'' ''hotel'' 50 [10, 11]"] c f
    by (simp add: sample_simps)
  show ?thesis
    using c f one two cast three by simp
qed

section \<open>Room identifiers stay unique\<close>

text \<open>
  Whatever the store answers, \<^verbatim>\<open>createRoom\<close> and \<^verbatim>\<open>deleteRoom\<close> leave the room collection
  with unique identifiers when they found it so.
\<close>

lemma delete_first_subset: "set (delete_first p xs) \<subseteq> set xs"
  by (induction xs) auto

lemma distinct_delete_first: "distinct (map f xs) \<Longrightarrow> distinct (map f (delete_first p xs))"
proof (induction xs)
  case Nil
  then show ?case by simp
next
  case (Cons a xs)
  have "f a \<notin> f ` set (delete_first p xs)"
    using Cons.prems delete_first_subset [of p xs] by auto
  with Cons show ?case by simp
qed

lemma Room_save_rooms:
  "nextId (snd (Room_save r s)) = nextId s \<and>
   (room_coll (snd (Room_save r s)) = room_coll s \<or> room_coll (snd (Room_save r s)) = room_coll s @ [r])"
  by (cases "attempt s" rule: prod.exhaust; cases "fst (attempt s)")
    (use attempt_colls [of s] in \<open>auto simp: Room_save_def\<close>)

lemma Hotel_findByIdAndUpdate_rooms:
  "nextId (snd (Hotel_findByIdAndUpdate rid u n s)) = nextId s \<and>
   room_coll (snd (Hotel_findByIdAndUpdate rid u n s)) = room_coll s"
proof (cases rid)
  case (ObjectId i)
  show ?thesis
    unfolding ObjectId
    by (cases "attempt s" rule: prod.exhaust; cases "fst (attempt s)")
      (use attempt_colls [of s] in \<open>auto simp: Hotel_findByIdAndUpdate_def split: option.splits\<close>)
next
  case (NotObjectId t)
  then show ?thesis by (simp add: Hotel_findByIdAndUpdate_def)
qed

lemma Room_findByIdAndDelete_rooms:
  "nextId (snd (Room_findByIdAndDelete rid s)) = nextId s \<and>
   (room_coll (snd (Room_findByIdAndDelete rid s)) = room_coll s
    \<or> (\<exists>i. room_coll (snd (Room_findByIdAndDelete rid s)) =
             delete_first (\<lambda>r. room_id r = i) (room_coll s)))"
proof (cases rid)
  case (ObjectId i)
  show ?thesis
    unfolding ObjectId
    by (cases "attempt s" rule: prod.exhaust; cases "fst (attempt s)")
      (use attempt_colls [of s] in \<open>auto simp: Room_findByIdAndDelete_def\<close>)
next
  case (NotObjectId t)
  then show ?thesis by (simp add: Room_findByIdAndDelete_def)
qed

lemma unique_rooms_append:
  assumes "unique_rooms s"
    and "nextId s' = Suc (nextId s)"
    and "room_coll s' = room_coll s \<or> room_coll s' = room_coll s @ [\<lparr>room_id = nextId s, room_attrs = b\<rparr>]"
  shows "unique_rooms s'"
proof -
  have below: "room_id r < nextId s" if "r \<in> set (room_coll s)" for r
    using assms(1) that by (simp add: unique_rooms_def list_all_iff)
  then have fresh: "nextId s \<notin> room_id ` set (room_coll s)"
    by fastforce
  have "room_id r < Suc (nextId s)" if "r \<in> set (room_coll s)" for r
    using below [OF that] by simp
  then show ?thesis
    using assms fresh by (auto simp: unique_rooms_def list_all_iff)
qed

lemma createRoom_rooms:
  "nextId (snd (createRoom hotelId body s)) = Suc (nextId s) \<and>
   (room_coll (snd (createRoom hotelId body s)) = room_coll s
    \<or> room_coll (snd (createRoom hotelId body s)) =
        room_coll s @ [\<lparr>room_id = nextId s, room_attrs = body\<rparr>])"
proof -
  let ?r = "\<lparr>room_id = nextId s, room_attrs = body\<rparr>"
  let ?s0 = "s\<lparr>nextId := Suc (nextId s)\<rparr>"
  obtain res s1 where save: "Room_save ?r ?s0 = (res, s1)" by (cases "Room_save ?r ?s0")
  have s1: "nextId s1 = Suc (nextId s)"
    "room_coll s1 = room_coll s \<or> room_coll s1 = room_coll s @ [?r]"
    using Room_save_rooms [of ?r ?s0] save by auto
  show ?thesis
  proof (cases res)
    case (Inl e)
    then show ?thesis using save s1 by (simp add: createRoom_def new_Room_def)
  next
    case (Inr saved)
    obtain d s2 where upd: "Hotel_findByIdAndUpdate hotelId (UpdPush (room_id saved)) False s1 = (d, s2)"
      by (cases "Hotel_findByIdAndUpdate hotelId (UpdPush (room_id saved)) False s1")
    then have "nextId s2 = nextId s1" "room_coll s2 = room_coll s1"
      using Hotel_findByIdAndUpdate_rooms [of hotelId "UpdPush (room_id saved)" False s1] by auto
    then show ?thesis
      using Inr save s1 upd by (cases d) (simp_all add: createRoom_def new_Room_def)
  qed
qed

lemma createRoom_unique_rooms:
  "unique_rooms s \<Longrightarrow> unique_rooms (snd (createRoom hotelId body s))"
  using createRoom_rooms [of hotelId body s] by (blast intro: unique_rooms_append)

lemma deleteRoom_rooms:
  "nextId (snd (deleteRoom hotelId rid s)) = nextId s \<and>
   (room_coll (snd (deleteRoom hotelId rid s)) = room_coll s
    \<or> (\<exists>i. room_coll (snd (deleteRoom hotelId rid s)) =
             delete_first (\<lambda>r. room_id r = i) (room_coll s)))"
proof -
  obtain res s1 where del: "Room_findByIdAndDelete rid s = (res, s1)"
    by (cases "Room_findByIdAndDelete rid s")
  have s1: "nextId s1 = nextId s"
    "room_coll s1 = room_coll s
     \<or> (\<exists>i. room_coll s1 = delete_first (\<lambda>r. room_id r = i) (room_coll s))"
    using Room_findByIdAndDelete_rooms [of rid s] del by auto
  show ?thesis
  proof (cases res)
    case (Inl e)
    then show ?thesis using del s1 by (simp add: deleteRoom_def)
  next
    case (Inr gone)
    obtain d s2 where upd: "Hotel_findByIdAndUpdate hotelId (UpdPull rid) False s1 = (d, s2)"
      by (cases "Hotel_findByIdAndUpdate hotelId (UpdPull rid) False s1")
    then have "nextId s2 = nextId s1" "room_coll s2 = room_coll s1"
      using Hotel_findByIdAndUpdate_rooms [of hotelId "UpdPull rid" False s1] by auto
    then show ?thesis
      using Inr del s1 upd by (cases d) (simp_all add: deleteRoom_def)
  qed
qed

lemma deleteRoom_unique_rooms:
  assumes "unique_rooms s"
  shows "unique_rooms (snd (deleteRoom hotelId rid s))"
proof -
  have "unique_rooms (s\<lparr>room_coll := delete_first (\<lambda>r. room_id r = i) (room_coll s)\<rparr>)" for i
    using assms delete_first_subset [of "\<lambda>r. room_id r = i" "room_coll s"]
    by (auto simp: unique_rooms_def list_all_iff distinct_delete_first)
  then show ?thesis
    using assms deleteRoom_rooms [of hotelId rid s]
    by (auto simp: unique_rooms_def)
qed

section \<open>Deleting a room\<close>

text \<open>
  C5, as the code has it. Room identifiers are unique in the collection (as
  \<open>unique_rooms\<close> has it). For the stored Hotel \<open>H\<close> whose list contains \<open>r\<close> and a store
  that answers, \<^verbatim>\<open>deleteRoom\<close> responds 200, the Hotel's list afterwards is \<open>H\<close>'s without
  \<open>r\<close>, and a following \<^verbatim>\<open>getRoom(r)\<close> responds 200 with \<^verbatim>\<open>null\<close>: it does not fail.
\<close>

theorem deleteRoom_then_getRoom:
  assumes "calm s"
    and "distinct (map room_id (room_coll s))"
    and "find (\<lambda>h. hotel_id h = hotelId) (hotel_coll s) = Some H"
    and "r \<in> set (rooms H)"
  shows "fst (deleteRoom (ObjectId hotelId) (ObjectId r) s) = [Json 200 (JText ''Room has been deleted'')]
       \<and> fst (getRoom (ObjectId r) (snd (deleteRoom (ObjectId hotelId) (ObjectId r) s))) = [Json 200 JNull]
       \<and> find (\<lambda>h. hotel_id h = hotelId) (hotel_coll (snd (deleteRoom (ObjectId hotelId) (ObjectId r) s))) =
           Some (H\<lparr>rooms := filter (\<lambda>x. x \<noteq> r) (rooms H)\<rparr>)
       \<and> r \<notin> set (filter (\<lambda>x. x \<noteq> r) (rooms H))"
proof -
  obtain d1 s1 where del: "Room_findByIdAndDelete (ObjectId r) s = (Inr d1, s1)" "calm s1"
    "hotel_coll s1 = hotel_coll s" "room_coll s1 = delete_first (\<lambda>x. room_id x = r) (room_coll s)"
    using assms(1) by (rule Room_findByIdAndDelete_passes)
  obtain d2 s2 where upd: "Hotel_findByIdAndUpdate (ObjectId hotelId) (UpdPull (ObjectId r)) False s1 = (Inr d2, s2)"
    "calm s2" "room_coll s2 = room_coll s1"
    "hotel_coll s2 = update_first (\<lambda>h. hotel_id h = hotelId) (apply_update (UpdPull (ObjectId r))) (hotel_coll s1)"
    using del(2) by (rule Hotel_findByIdAndUpdate_passes)
  have run: "deleteRoom (ObjectId hotelId) (ObjectId r) s = ([Json 200 (JText ''Room has been deleted'')], s2)"
    using del(1) upd(1) by (simp add: deleteRoom_def)
  have gone: "find (\<lambda>x. room_id x = r) (room_coll s2) = None"
    using assms(2) del(4) upd(3) by (simp add: find_delete_first)
  obtain s3 where "Room_findById (ObjectId r) s2 = (Inr (find (\<lambda>x. room_id x = r) (room_coll s2)), s3)"
    using upd(2) by (rule Room_findById_passes)
  then have get: "fst (getRoom (ObjectId r) s2) = [Json 200 JNull]"
    using gone by (simp add: getRoom_def nullable_def)
  have id: "hotel_id H = hotelId"
    using assms(3) by (auto simp: find_Some_iff)
  have "find (\<lambda>h. hotel_id h = hotelId) (hotel_coll s2) = Some (apply_update (UpdPull (ObjectId r)) H)"
    using assms(3) id del(3) upd(4) by (simp add: find_update_first)
  then show ?thesis
    using run get by simp
qed

theorem deleteRoom_then_getRoom_witness:
  "calm sample_db
   \<and> distinct (map room_id (room_coll sample_db))
   \<and> find (\<lambda>h. hotel_id h = 1) (hotel_coll sample_db) =
       Some (sample_hotel 1 ''Paris'' ''hotel'' 50 [10, 11])
   \<and> 10 \<in> set (rooms (sample_hotel 1 ''Paris'' ''hotel'' 50 [10, 11]))
   \<and> fst (deleteRoom (ObjectId 1) (ObjectId 10) sample_db) = [Json 200 (JText ''Room has been deleted'')]
   \<and> fst (getRoom (ObjectId 10) (snd (deleteRoom (ObjectId 1) (ObjectId 10) sample_db))) = [Json 200 JNull]
   \<and> find (\<lambda>h. hotel_id h = 1) (hotel_coll (snd (deleteRoom (ObjectId 1) (ObjectId 10) sample_db))) =
       Some (sample_hotel 1 ''Paris'' ''hotel'' 50 [11])"
proof -
  have c: "calm sample_db" by (simp add: sample_simps)
  have d: "distinct (map room_id (room_coll sample_db))" by (simp add: sample_simps)
  have f: "find (\<lambda>h. hotel_id h = 1) (hotel_coll sample_db) =
      Some (sample_hotel 1 ''Paris'' ''hotel'' 50 [10, 11])"
    by (simp add: sample_simps)
  have r: "10 \<in> set (rooms (sample_hotel 1 ''Paris'' ''hotel'' 50 [10, 11]))"
    by (simp add: sample_simps)
  show ?thesis
    using c d f r deleteRoom_then_getRoom [OF c d f r]
    by (simp add: sample_simps)
qed

text \<open>
  C5 as the spec states it fails: after room 10 of hotel 1 is deleted from the sample
  store, \<^verbatim>\<open>getRoom(10)\<close> is answered with a 200 response, not with an error.
\<close>

theorem deleteRoom_then_getRoom_counterexample:
  "find (\<lambda>h. hotel_id h = 1) (hotel_coll sample_db) = Some (sample_hotel 1 ''Paris'' ''hotel'' 50 [10, 11])
   \<and> fst (deleteRoom (ObjectId 1) (ObjectId 10) sample_db) = [Json 200 (JText ''Room has been deleted'')]
   \<and> fst (getRoom (ObjectId 10) (snd (deleteRoom (ObjectId 1) (ObjectId 10) sample_db))) = [Json 200 JNull]"
  by (simp add: deleteRoom_def getRoom_def Room_findByIdAndDelete_def Hotel_findByIdAndUpdate_def
      Room_findById_def attempt_def nullable_def sample_simps)

section \<open>The rooms of a hotel\<close>

lemma promise_all_Room_findById:
  "calm s \<Longrightarrow>
     \<exists>s1. promise_all (map (\<lambda>room. Room_findById (ObjectId room)) rs) s =
            (Inr (map (\<lambda>r. find (\<lambda>x. room_id x = r) (room_coll s)) rs), s1)
        \<and> calm s1 \<and> room_coll s1 = room_coll s \<and> hotel_coll s1 = hotel_coll s"
proof (induction rs arbitrary: s)
  case Nil
  then show ?case by simp
next
  case (Cons r rs)
  obtain s1 where one: "Room_findById (ObjectId r) s = (Inr (find (\<lambda>x. room_id x = r) (room_coll s)), s1)"
    "calm s1" "hotel_coll s1 = hotel_coll s" "room_coll s1 = room_coll s"
    using Cons.prems by (rule Room_findById_passes)
  obtain s2 where rest: "promise_all (map (\<lambda>room. Room_findById (ObjectId room)) rs) s1 =
      (Inr (map (\<lambda>r. find (\<lambda>x. room_id x = r) (room_coll s1)) rs), s2)"
    "calm s2" "room_coll s2 = room_coll s1" "hotel_coll s2 = hotel_coll s1"
    using Cons.IH [OF one(2)] by blast
  show ?case
    using one rest by simp
qed

lemma getHotelRooms_calm:
  assumes "calm s" and "find (\<lambda>h. hotel_id h = i) (hotel_coll s) = Some H"
  shows "fst (getHotelRooms (ObjectId i) s) =
           [Json 200 (JArray (map (\<lambda>r. nullable JRoom (find (\<lambda>x. room_id x = r) (room_coll s)))
                                  (rooms H)))]"
proof -
  obtain s1 where h: "Hotel_findById (ObjectId i) s = (Inr (find (\<lambda>h. hotel_id h = i) (hotel_coll s)), s1)"
    "calm s1" "room_coll s1 = room_coll s"
    using assms(1) by (rule Hotel_findById_passes)
  obtain s2 where "promise_all (map (\<lambda>room. Room_findById (ObjectId room)) (rooms H)) s1 =
      (Inr (map (\<lambda>r. find (\<lambda>x. room_id x = r) (room_coll s1)) (rooms H)), s2)"
    using promise_all_Room_findById [OF h(2)] by blast
  then show ?thesis
    using h assms(2) by (simp add: getHotelRooms_def comp_def)
qed

lemma promise_all_rejects:
  "pending s = replicate j None @ Some e # fs \<Longrightarrow> j < length rs \<Longrightarrow>
     fst (promise_all (map (\<lambda>room. Room_findById (ObjectId room)) rs) s) = Inl e"
proof (induction rs arbitrary: s j)
  case Nil
  then show ?case by simp
next
  case (Cons r rs)
  show ?case
  proof (cases j)
    case 0
    with Cons.prems have "Room_findById (ObjectId r) s = (Inl e, s\<lparr>pending := fs\<rparr>)"
      by (simp add: Room_findById_def attempt_def)
    then show ?thesis
      by (cases "promise_all (map (\<lambda>room. Room_findById (ObjectId room)) rs) (s\<lparr>pending := fs\<rparr>)") simp
  next
    case (Suc k)
    let ?s1 = "s\<lparr>pending := replicate k None @ Some e # fs\<rparr>"
    from Suc Cons.prems have one:
      "Room_findById (ObjectId r) s = (Inr (find (\<lambda>x. room_id x = r) (room_coll s)), ?s1)"
      by (simp add: Room_findById_def attempt_def)
    have "fst (promise_all (map (\<lambda>room. Room_findById (ObjectId room)) rs) ?s1) = Inl e"
      using Cons.IH [of ?s1 k] Suc Cons.prems by simp
    then show ?thesis
      using one by (cases "promise_all (map (\<lambda>room. Room_findById (ObjectId room)) rs) ?s1") simp
  qed
qed

text \<open>
  C3. For the stored Hotel \<open>H\<close> of identifier \<open>i\<close>, when every identifier of \<open>H\<close>'s
  \<^verbatim>\<open>rooms\<close> is the identifier of a stored Room and the store answers, \<^verbatim>\<open>getHotelRooms\<close>
  responds 200 with a list of Rooms that is as long as \<^verbatim>\<open>rooms\<close> and whose identifiers,
  read in order, are \<^verbatim>\<open>rooms\<close> itself.
\<close>

theorem getHotelRooms_order:
  assumes "calm s"
    and "find (\<lambda>h. hotel_id h = i) (hotel_coll s) = Some H"
    and "set (rooms H) \<subseteq> room_id ` set (room_coll s)"
  shows "\<exists>list. fst (getHotelRooms (ObjectId i) s) = [Json 200 (JArray (map JRoom list))]
           \<and> length list = length (rooms H)
           \<and> map room_id list = rooms H
           \<and> set list \<subseteq> set (room_coll s)"
proof -
  let ?get = "\<lambda>r. find (\<lambda>x. room_id x = r) (room_coll s)"
  let ?list = "map (\<lambda>r. the (?get r)) (rooms H)"
  have found: "\<exists>x. ?get r = Some x \<and> room_id x = r \<and> x \<in> set (room_coll s)"
    if "r \<in> set (rooms H)" for r
  proof -
    from that assms(3) have "?get r \<noteq> None" by (auto simp: find_None_iff)
    then obtain x where x: "?get r = Some x" by blast
    then have "room_id x = r \<and> x \<in> set (room_coll s)"
      by (auto simp: find_Some_iff)
    with x show ?thesis by blast
  qed
  have "nullable JRoom (?get r) = JRoom (the (?get r))" if "r \<in> set (rooms H)" for r
    using found [OF that] by (auto simp: nullable_def)
  then have "map (\<lambda>r. nullable JRoom (?get r)) (rooms H) = map JRoom ?list"
    by simp
  then have "fst (getHotelRooms (ObjectId i) s) = [Json 200 (JArray (map JRoom ?list))]"
    using getHotelRooms_calm [OF assms(1,2)] by simp
  moreover have "length ?list = length (rooms H)" by simp
  moreover have "room_id (the (?get r)) = r" if "r \<in> set (rooms H)" for r
    using found [OF that] by auto
  then have "map room_id ?list = rooms H"
    by (simp add: map_idI)
  moreover have "the (?get r) \<in> set (room_coll s)" if "r \<in> set (rooms H)" for r
    using found [OF that] by auto
  then have "set ?list \<subseteq> set (room_coll s)"
    by auto
  ultimately show ?thesis by blast
qed

theorem getHotelRooms_order_witness:
  "calm sample_db
   \<and> find (\<lambda>h. hotel_id h = 1) (hotel_coll sample_db) =
       Some (sample_hotel 1 ''Paris'' ''hotel'' 50 [10, 11])
   \<and> set (rooms (sample_hotel 1 ''Paris'' ''hotel'' 50 [10, 11])) \<subseteq> room_id ` set (room_coll sample_db)
   \<and> (\<exists>list. fst (getHotelRooms (ObjectId 1) sample_db) = [Json 200 (JArray (map JRoom list))]
          \<and> length list = 2
          \<and> map room_id list = [10, 11]
          \<and> set list \<subseteq> {sample_room 10, sample_room 11, sample_room 12})"
proof -
  have c: "calm sample_db" by (simp add: sample_simps)
  have f: "find (\<lambda>h. hotel_id h = 1) (hotel_coll sample_db) =
      Some (sample_hotel 1 ''Paris'' ''hotel'' 50 [10, 11])"
    by (simp add: sample_simps)
  have r: "set (rooms (sample_hotel 1 ''Paris'' ''hotel'' 50 [10, 11])) \<subseteq> room_id ` set (room_coll sample_db)"
    by (simp add: sample_simps)
  have h: "rooms (sample_hotel 1 ''Paris'' ''hotel'' 50 [10, 11]) = [10, 11]"
    by (simp add: sample_hotel_def)
  have d: "set (room_coll sample_db) = {sample_room 10, sample_room 11, sample_room 12}"
    by (simp add: sample_db_def)
  have "\<exists>list. fst (getHotelRooms (ObjectId 1) sample_db) = [Json 200 (JArray (map JRoom list))]
      \<and> length list = 2 \<and> map room_id list = [10, 11]
      \<and> set list \<subseteq> {sample_room 10, sample_room 11, sample_room 12}"
    using getHotelRooms_order [OF c f r] unfolding h d by (simp add: numeral_2_eq_2)
  then show ?thesis
    using c f r by blast
qed

text \<open>
  C6, as the code has it. An identifier of \<^verbatim>\<open>rooms\<close> that matches no stored Room does not
  abort the call: the driver resolves its lookup to \<^verbatim>\<open>null\<close>, and when the store answers
  the response is 200 with one entry per identifier, in order, \<^verbatim>\<open>null\<close> where the Room
  is missing. The call is aborted, with \<^verbatim>\<open>next(e)\<close> and no response, when the lookup of
  the Hotel or of one of the Rooms is rejected with \<open>e\<close>.
\<close>

theorem getHotelRooms_dangling:
  assumes "find (\<lambda>h. hotel_id h = i) (hotel_coll s) = Some H"
  shows "(calm s \<longrightarrow>
            fst (getHotelRooms (ObjectId i) s) =
              [Json 200 (JArray (map (\<lambda>r. nullable JRoom (find (\<lambda>x. room_id x = r) (room_coll s)))
                                     (rooms H)))])
       \<and> (pending s = replicate j None @ Some e # fs \<and> j \<le> length (rooms H) \<longrightarrow>
            fst (getHotelRooms (ObjectId i) s) = [Next e])"
proof (intro conjI impI)
  assume "calm s"
  then show "fst (getHotelRooms (ObjectId i) s) =
      [Json 200 (JArray (map (\<lambda>r. nullable JRoom (find (\<lambda>x. room_id x = r) (room_coll s)))
                             (rooms H)))]"
    using assms by (rule getHotelRooms_calm)
next
  assume p: "pending s = replicate j None @ Some e # fs \<and> j \<le> length (rooms H)"
  show "fst (getHotelRooms (ObjectId i) s) = [Next e]"
  proof (cases j)
    case 0
    with p show ?thesis
      by (simp add: getHotelRooms_def Hotel_findById_def attempt_def)
  next
    case (Suc k)
    let ?s1 = "s\<lparr>pending := replicate k None @ Some e # fs\<rparr>"
    from Suc p assms have h: "Hotel_findById (ObjectId i) s = (Inr (Some H), ?s1)"
      by (simp add: Hotel_findById_def attempt_def)
    have "fst (promise_all (map (\<lambda>room. Room_findById (ObjectId room)) (rooms H)) ?s1) = Inl e"
      using promise_all_rejects [of ?s1 k e fs "rooms H"] Suc p by simp
    then show ?thesis
      using h
      by (cases "promise_all (map (\<lambda>room. Room_findById (ObjectId room)) (rooms H)) ?s1")
        (simp add: getHotelRooms_def)
  qed
qed

theorem getHotelRooms_dangling_witness:
  "find (\<lambda>h. hotel_id h = 2) (hotel_coll sample_db) =
     Some (sample_hotel 2 ''Paris'' ''apartment'' 100 [12, 13])
   \<and> calm sample_db
   \<and> fst (getHotelRooms (ObjectId 2) sample_db) = [Json 200 (JArray [JRoom (sample_room 12), JNull])]
   \<and> pending (sample_db\<lparr>pending := [None, None, Some (StoreError ''down'')]\<rparr>) =
       replicate 2 None @ Some (StoreError ''down'') # []
   \<and> 2 \<le> length (rooms (sample_hotel 2 ''Paris'' ''apartment'' 100 [12, 13]))
   \<and> fst (getHotelRooms (ObjectId 2) (sample_db\<lparr>pending := [None, None, Some (StoreError ''down'')]\<rparr>)) =
       [Next (StoreError ''down'')]"
proof -
  let ?H = "sample_hotel 2 ''Paris'' ''apartment'' 100 [12, 13]"
  let ?s = "sample_db\<lparr>pending := [None, None, Some (StoreError ''down'')]\<rparr>"
  have c: "calm sample_db" by (simp add: sample_simps)
  have f: "find (\<lambda>h. hotel_id h = 2) (hotel_coll sample_db) = Some ?H"
    by (simp add: sample_simps)
  have f': "find (\<lambda>h. hotel_id h = 2) (hotel_coll ?s) = Some ?H"
    by (simp add: sample_simps)
  have p: "pending ?s = replicate 2 None @ Some (StoreError ''down'') # []"
    by (simp add: numeral_2_eq_2)
  have l: "2 \<le> length (rooms ?H)" by (simp add: sample_hotel_def)
  have "fst (getHotelRooms (ObjectId 2) sample_db) =
      [Json 200 (JArray (map (\<lambda>r. nullable JRoom (find (\<lambda>x. room_id x = r) (room_coll sample_db)))
                             (rooms ?H)))]"
    using getHotelRooms_dangling [OF f] c by blast
  then have "fst (getHotelRooms (ObjectId 2) sample_db) = [Json 200 (JArray [JRoom (sample_room 12), JNull])]"
    by (simp add: nullable_def sample_simps)
  moreover have "fst (getHotelRooms (ObjectId 2) ?s) = [Next (StoreError ''down'')]"
    using getHotelRooms_dangling [OF f', of 2 "StoreError ''down''" "[]"] p l by blast
  ultimately show ?thesis
    using c f p l by simp
qed

text \<open>
  C6 as the spec states it fails: hotel 2 of the sample store lists room 13, which is
  not stored, and \<^verbatim>\<open>getHotelRooms\<close> responds 200 with room 12 followed by \<^verbatim>\<open>null\<close>.
\<close>

theorem getHotelRooms_dangling_counterexample:
  "find (\<lambda>h. hotel_id h = 2) (hotel_coll sample_db) =
     Some (sample_hotel 2 ''Paris'' ''apartment'' 100 [12, 13])
   \<and> 13 \<notin> room_id ` set (room_coll sample_db)
   \<and> getHotelRooms (ObjectId 2) sample_db = ([Json 200 (JArray [JRoom (sample_room 12), JNull])], sample_db)"
  by (simp add: getHotelRooms_def Hotel_findById_def Room_findById_def attempt_def
      nullable_def sample_simps)

section \<open>Counting\<close>

lemma promise_all_countDocuments:
  "calm s \<Longrightarrow>
     \<exists>s1. promise_all (map (\<lambda>c. Hotel_countDocuments (P c)) cs) s =
            (Inr (map (\<lambda>c. length (filter (P c) (hotel_coll s))) cs), s1)
        \<and> calm s1 \<and> hotel_coll s1 = hotel_coll s"
proof (induction cs arbitrary: s)
  case Nil
  then show ?case by simp
next
  case (Cons c cs)
  obtain s1 where one: "Hotel_countDocuments (P c) s = (Inr (length (filter (P c) (hotel_coll s))), s1)"
    "calm s1" "hotel_coll s1 = hotel_coll s"
    using Cons.prems by (rule Hotel_countDocuments_passes)
  obtain s2 where rest: "promise_all (map (\<lambda>c. Hotel_countDocuments (P c)) cs) s1 =
      (Inr (map (\<lambda>c. length (filter (P c) (hotel_coll s1))) cs), s2)"
    "calm s2" "hotel_coll s2 = hotel_coll s1"
    using Cons.IH [OF one(2)] by blast
  show ?case
    using one rest by simp
qed

lemma split_from_no_separator: "c \<notin> set x \<Longrightarrow> split_from c piece x = [rev piece @ x]"
  by (induction x arbitrary: piece) auto

lemma split_from_append:
  "c \<notin> set x \<Longrightarrow> split_from c piece (x @ c # rest) = (rev piece @ x) # split_from c [] rest"
  by (induction x arbitrary: piece) auto

lemma split_join:
  "names \<noteq> [] \<Longrightarrow> \<forall>n \<in> set names. c \<notin> set n \<Longrightarrow> split c (join c names) = names"
proof (induction c names rule: join.induct)
  case (1 c)
  then show ?case by simp
next
  case (2 c x)
  then show ?case by (simp add: split_def split_from_no_separator)
next
  case (3 c x y ys)
  then have "split_from c [] (join c (y # ys)) = y # ys"
    by (simp add: split_def)
  with 3 show ?case
    by (simp add: split_def split_from_append)
qed

text \<open>
  C7. When the store answers, \<^verbatim>\<open>countByCity\<close> responds 200 with one integer per piece
  of \<^verbatim>\<open>req.query.cities\<close>, in the order of the pieces: the number of hotels whose \<^verbatim>\<open>city\<close>
  equals that piece. So for a sequence of city names written into the query with commas
  between them (a non-empty sequence of names without commas, the only sequences the
  handler can be given), the response has one count per name, in the order of the names,
  and a name given twice is counted twice.
\<close>

theorem countByCity_positional:
  assumes "calm s" and "param query ''cities'' = Str cs"
  shows "fst (countByCity query s) =
           [Json 200 (JArray (map (\<lambda>n. JInt (int (length (filter (\<lambda>h. city h = n) (hotel_coll s)))))
                                  (split CHR '','' cs)))]
       \<and> (names \<noteq> [] \<and> (\<forall>n \<in> set names. CHR '','' \<notin> set n) \<and> cs = join CHR '','' names \<longrightarrow>
            fst (countByCity query s) =
              [Json 200 (JArray (map (\<lambda>n. JInt (int (length (filter (\<lambda>h. city h = n) (hotel_coll s)))))
                                     names))])"
proof -
  obtain s1 where "promise_all (map (\<lambda>c. Hotel_countDocuments (\<lambda>h. city h = c)) (split CHR '','' cs)) s =
      (Inr (map (\<lambda>c. length (filter (\<lambda>h. city h = c) (hotel_coll s))) (split CHR '','' cs)), s1)"
    using promise_all_countDocuments [OF assms(1), of "\<lambda>c h. city h = c" "split CHR '','' cs"] by blast
  then have run: "fst (countByCity query s) =
      [Json 200 (JArray (map (\<lambda>n. JInt (int (length (filter (\<lambda>h. city h = n) (hotel_coll s)))))
                             (split CHR '','' cs)))]"
    using assms(2) by (simp add: countByCity_def comp_def)
  show ?thesis
  proof (intro conjI impI)
    show "fst (countByCity query s) =
      [Json 200 (JArray (map (\<lambda>n. JInt (int (length (filter (\<lambda>h. city h = n) (hotel_coll s)))))
                             (split CHR '','' cs)))]"
      by (rule run)
  next
    assume n: "names \<noteq> [] \<and> (\<forall>n \<in> set names. CHR '','' \<notin> set n) \<and> cs = join CHR '','' names"
    then have "split CHR '','' cs = names"
      by (simp add: split_join)
    with run show "fst (countByCity query s) =
      [Json 200 (JArray (map (\<lambda>n. JInt (int (length (filter (\<lambda>h. city h = n) (hotel_coll s)))))
                             names))]"
      by simp
  qed
qed

theorem countByCity_positional_witness:
  "calm sample_db
   \<and> param [(''cities'', Str ''Paris,Paris,Tokyo'')] ''cities'' = Str ''Paris,Paris,Tokyo''
   \<and> [''Paris'', ''Paris'', ''Tokyo''] \<noteq> []
   \<and> CHR '','' \<notin> set ''Paris'' \<and> CHR '','' \<notin> set ''Tokyo''
   \<and> ''Paris,Paris,Tokyo'' = join CHR '','' [''Paris'', ''Paris'', ''Tokyo'']
   \<and> split CHR '','' ''Paris,Paris,Tokyo'' = [''Paris'', ''Paris'', ''Tokyo'']
   \<and> fst (countByCity [(''cities'', Str ''Paris,Paris,Tokyo'')] sample_db) =
       [Json 200 (JArray [JInt 2, JInt 2, JInt 1])]"
proof -
  have c: "calm sample_db" by (simp add: sample_simps)
  have q: "param [(''cities'', Str ''Paris,Paris,Tokyo'')] ''cities'' = Str ''Paris,Paris,Tokyo''"
    by (simp add: param_def)
  have n: "[''Paris'', ''Paris'', ''Tokyo''] \<noteq> []
      \<and> (\<forall>n \<in> set [''Paris'', ''Paris'', ''Tokyo'']. CHR '','' \<notin> set n)
      \<and> ''Paris,Paris,Tokyo'' = join CHR '','' [''Paris'', ''Paris'', ''Tokyo'']"
    by simp
  have sp: "split CHR '','' ''Paris,Paris,Tokyo'' = [''Paris'', ''Paris'', ''Tokyo'']"
    by (simp add: split_def)
  have "fst (countByCity [(''cities'', Str ''Paris,Paris,Tokyo'')] sample_db) =
      [Json 200 (JArray (map (\<lambda>n. JInt (int (length (filter (\<lambda>h. city h = n) (hotel_coll sample_db)))))
                             [''Paris'', ''Paris'', ''Tokyo'']))]"
    by (rule countByCity_positional [OF c q, of "[''Paris'', ''Paris'', ''Tokyo'']",
          THEN conjunct2, THEN mp]) (rule n)
  then have r: "fst (countByCity [(''cities'', Str ''Paris,Paris,Tokyo'')] sample_db) =
      [Json 200 (JArray [JInt 2, JInt 2, JInt 1])]"
    by (simp add: sample_db_def sample_hotel_def)
  have j: "''Paris,Paris,Tokyo'' = join CHR '','' [''Paris'', ''Paris'', ''Tokyo'']" by simp
  show ?thesis
    by (intro conjI c q sp r j) simp_all
qed

text \<open>
  C8, as the code has it. When the store answers, \<^verbatim>\<open>countByType\<close> responds 200 with
  exactly five entries: \<^verbatim>\<open>hotel\<close>, \<^verbatim>\<open>apartments\<close>, \<^verbatim>\<open>resorts\<close>, \<^verbatim>\<open>villas\<close> and \<^verbatim>\<open>cabins\<close>, in
  this order, each with the number of hotels of that type, and nothing for any other
  type. On a store without hotels all five counts are 0. An entry is the object
  \<^verbatim>\<open>{type: t, count: n}\<close>: its keys are \<^verbatim>\<open>type\<close> and \<^verbatim>\<open>count\<close>, and the name of the type is
  the value of \<^verbatim>\<open>type\<close>.
\<close>

theorem countByType_five_entries:
  assumes "calm s"
  shows "fst (countByType s) =
           [Json 200 (JArray
              [type_count ''hotel'' (length (filter (\<lambda>h. hotel_type h = ''hotel'') (hotel_coll s))),
               type_count ''apartments'' (length (filter (\<lambda>h. hotel_type h = ''apartment'') (hotel_coll s))),
               type_count ''resorts'' (length (filter (\<lambda>h. hotel_type h = ''resort'') (hotel_coll s))),
               type_count ''villas'' (length (filter (\<lambda>h. hotel_type h = ''villa'') (hotel_coll s))),
               type_count ''cabins'' (length (filter (\<lambda>h. hotel_type h = ''cabin'') (hotel_coll s)))])]
       \<and> (hotel_coll s = [] \<longrightarrow>
            fst (countByType s) =
              [Json 200 (JArray
                 [JObject [(''type'', JText ''hotel''), (''count'', JInt 0)],
                  JObject [(''type'', JText ''apartments''), (''count'', JInt 0)],
                  JObject [(''type'', JText ''resorts''), (''count'', JInt 0)],
                  JObject [(''type'', JText ''villas''), (''count'', JInt 0)],
                  JObject [(''type'', JText ''cabins''), (''count'', JInt 0)]])])"
proof -
  obtain s1 where c1: "Hotel_countDocuments (\<lambda>h. hotel_type h = ''hotel'') s =
      (Inr (length (filter (\<lambda>h. hotel_type h = ''hotel'') (hotel_coll s))), s1)"
    "calm s1" "hotel_coll s1 = hotel_coll s"
    using assms by (rule Hotel_countDocuments_passes)
  obtain s2 where c2: "Hotel_countDocuments (\<lambda>h. hotel_type h = ''apartment'') s1 =
      (Inr (length (filter (\<lambda>h. hotel_type h = ''apartment'') (hotel_coll s1))), s2)"
    "calm s2" "hotel_coll s2 = hotel_coll s1"
    using c1(2) by (rule Hotel_countDocuments_passes)
  obtain s3 where c3: "Hotel_countDocuments (\<lambda>h. hotel_type h = ''resort'') s2 =
      (Inr (length (filter (\<lambda>h. hotel_type h = ''resort'') (hotel_coll s2))), s3)"
    "calm s3" "hotel_coll s3 = hotel_coll s2"
    using c2(2) by (rule Hotel_countDocuments_passes)
  obtain s4 where c4: "Hotel_countDocuments (\<lambda>h. hotel_type h = ''villa'') s3 =
      (Inr (length (filter (\<lambda>h. hotel_type h = ''villa'') (hotel_coll s3))), s4)"
    "calm s4" "hotel_coll s4 = hotel_coll s3"
    using c3(2) by (rule Hotel_countDocuments_passes)
  obtain s5 where c5: "Hotel_countDocuments (\<lambda>h. hotel_type h = ''cabin'') s4 =
      (Inr (length (filter (\<lambda>h. hotel_type h = ''cabin'') (hotel_coll s4))), s5)"
    using c4(2) by (rule Hotel_countDocuments_passes)
  have run: "fst (countByType s) =
           [Json 200 (JArray
              [type_count ''hotel'' (length (filter (\<lambda>h. hotel_type h = ''hotel'') (hotel_coll s))),
               type_count ''apartments'' (length (filter (\<lambda>h. hotel_type h = ''apartment'') (hotel_coll s))),
               type_count ''resorts'' (length (filter (\<lambda>h. hotel_type h = ''resort'') (hotel_coll s))),
               type_count ''villas'' (length (filter (\<lambda>h. hotel_type h = ''villa'') (hotel_coll s))),
               type_count ''cabins'' (length (filter (\<lambda>h. hotel_type h = ''cabin'') (hotel_coll s)))])]"
    using c1 c2 c3 c4 c5 by (simp add: countByType_def await_def)
  show ?thesis
  proof (intro conjI impI)
    show "fst (countByType s) =
           [Json 200 (JArray
              [type_count ''hotel'' (length (filter (\<lambda>h. hotel_type h = ''hotel'') (hotel_coll s))),
               type_count ''apartments'' (length (filter (\<lambda>h. hotel_type h = ''apartment'') (hotel_coll s))),
               type_count ''resorts'' (length (filter (\<lambda>h. hotel_type h = ''resort'') (hotel_coll s))),
               type_count ''villas'' (length (filter (\<lambda>h. hotel_type h = ''villa'') (hotel_coll s))),
               type_count ''cabins'' (length (filter (\<lambda>h. hotel_type h = ''cabin'') (hotel_coll s)))])]"
      by (rule run)
  next
    assume "hotel_coll s = []"
    with run show "fst (countByType s) =
              [Json 200 (JArray
                 [JObject [(''type'', JText ''hotel''), (''count'', JInt 0)],
                  JObject [(''type'', JText ''apartments''), (''count'', JInt 0)],
                  JObject [(''type'', JText ''resorts''), (''count'', JInt 0)],
                  JObject [(''type'', JText ''villas''), (''count'', JInt 0)],
                  JObject [(''type'', JText ''cabins''), (''count'', JInt 0)]])]"
      by (simp add: type_count_def)
  qed
qed

theorem countByType_five_entries_witness:
  "calm (sample_db\<lparr>hotel_coll := []\<rparr>)
   \<and> hotel_coll (sample_db\<lparr>hotel_coll := []\<rparr>) = []
   \<and> fst (countByType (sample_db\<lparr>hotel_coll := []\<rparr>)) =
       [Json 200 (JArray
          [JObject [(''type'', JText ''hotel''), (''count'', JInt 0)],
           JObject [(''type'', JText ''apartments''), (''count'', JInt 0)],
           JObject [(''type'', JText ''resorts''), (''count'', JInt 0)],
           JObject [(''type'', JText ''villas''), (''count'', JInt 0)],
           JObject [(''type'', JText ''cabins''), (''count'', JInt 0)]])]
   \<and> calm sample_db
   \<and> fst (countByType sample_db) =
       [Json 200 (JArray
          [type_count ''hotel'' 2, type_count ''apartments'' 1, type_count ''resorts'' 0,
           type_count ''villas'' 0, type_count ''cabins'' 0])]"
proof -
  have c0: "calm (sample_db\<lparr>hotel_coll := []\<rparr>)" by (simp add: sample_simps)
  have c: "calm sample_db" by (simp add: sample_simps)
  have e: "hotel_coll (sample_db\<lparr>hotel_coll := []\<rparr>) = []" by simp
  have "fst (countByType (sample_db\<lparr>hotel_coll := []\<rparr>)) =
       [Json 200 (JArray
          [JObject [(''type'', JText ''hotel''), (''count'', JInt 0)],
           JObject [(''type'', JText ''apartments''), (''count'', JInt 0)],
           JObject [(''type'', JText ''resorts''), (''count'', JInt 0)],
           JObject [(''type'', JText ''villas''), (''count'', JInt 0)],
           JObject [(''type'', JText ''cabins''), (''count'', JInt 0)]])]"
    using countByType_five_entries [OF c0] e by blast
  moreover have "fst (countByType sample_db) =
       [Json 200 (JArray
          [type_count ''hotel'' 2, type_count ''apartments'' 1, type_count ''resorts'' 0,
           type_count ''villas'' 0, type_count ''cabins'' 0])]"
    using countByType_five_entries [OF c]
    by (simp add: sample_db_def sample_hotel_def numeral_2_eq_2)
  ultimately show ?thesis
    using c0 c e by blast
qed

text \<open>
  C8 as the spec states it fails: on the sample store without its hotels the response
  is not the list \<^verbatim>\<open>[{hotel: 0}, {apartments: 0}, {resorts: 0}, {villas: 0}, {cabins: 0}]\<close>;
  no entry has a type name among its keys.
\<close>

theorem countByType_keys_counterexample:
  "countByType (sample_db\<lparr>hotel_coll := []\<rparr>) =
     ([Json 200 (JArray
        [JObject [(''type'', JText ''hotel''), (''count'', JInt 0)],
         JObject [(''type'', JText ''apartments''), (''count'', JInt 0)],
         JObject [(''type'', JText ''resorts''), (''count'', JInt 0)],
         JObject [(''type'', JText ''villas''), (''count'', JInt 0)],
         JObject [(''type'', JText ''cabins''), (''count'', JInt 0)]])],
      sample_db\<lparr>hotel_coll := []\<rparr>)
   \<and> fst (countByType (sample_db\<lparr>hotel_coll := []\<rparr>)) \<noteq>
     [Json 200 (JArray
        [JObject [(''hotel'', JInt 0)],
         JObject [(''apartments'', JInt 0)],
         JObject [(''resorts'', JInt 0)],
         JObject [(''villas'', JInt 0)],
         JObject [(''cabins'', JInt 0)]])]"
  by (simp add: countByType_def await_def Hotel_countDocuments_def attempt_def type_count_def
      sample_db_def)

section \<open>The price range of \<^verbatim>\<open>getHotels\<close>\<close>

lemma safe_sint: "safe (sint (w :: 32 word))"
proof -
  have "- (2 ^ 31) \<le> sint w" "sint w < 2 ^ 31"
    using sint_ge [of w] sint_lt [of w] by simp_all
  then show ?thesis by (simp add: safe_def)
qed

lemma castNumber_absent: "castNumber path Undefined = Some (Inr None)"
  by (simp add: castNumber_def)

lemma castNumber_number:
  "truthy v \<Longrightarrow> ToNumber v = Some (Finite n) \<Longrightarrow> castNumber path v = Some (Inr (Some n))"
  by (cases v) (auto simp: castNumber_def split: if_splits)

lemma castNumber_int32: "castNumber path (Num (sint (w :: 32 word))) = Some (Inr (Some (sint w)))"
  by (simp add: castNumber_def safe_sint)

lemma put_absent: "k \<notin> fst ` set kcs \<Longrightarrow> put k c kcs = kcs @ [(k, c)]"
  by (induction kcs) auto

lemma or_one_int: "(m::int) OR 1 = (if even m then m + 1 else m)"
  by (simp add: or_one_eq)

lemma sint_or_one:
  "sint ((word_of_int m :: 32 word) OR 1) = ((m OR 1) + 2 ^ 31) mod 2 ^ 32 - 2 ^ 31"
proof -
  have "(word_of_int m :: 32 word) OR 1 = word_of_int (m OR 1)"
    by (simp add: of_int_or_eq)
  then have "sint ((word_of_int m :: 32 word) OR 1) = signed_take_bit 31 (m OR 1)"
    by (simp add: signed_of_int)
  also have "\<dots> = ((m OR 1) + 2 ^ 31) mod 2 ^ 32 - 2 ^ 31"
    by (simp add: signed_take_bit_eq_take_bit_shift take_bit_eq_mod)
  finally show ?thesis .
qed

lemma wrap_in_range:
  "- (2 ^ 31) \<le> (k::int) \<Longrightarrow> k < 2 ^ 31 \<Longrightarrow> (k + 2 ^ 31) mod 2 ^ 32 - 2 ^ 31 = k"
  by simp

lemma or_one_in_range:
  assumes "- (2 ^ 31) \<le> (m::int)" "m < 2 ^ 31"
  shows "- (2 ^ 31) \<le> m OR 1" "m OR 1 < 2 ^ 31"
proof -
  show "- (2 ^ 31) \<le> m OR 1" using assms(1) by (simp add: or_one_int)
  show "m OR 1 < 2 ^ 31"
  proof (cases "even m")
    case True
    then have "m \<noteq> 2 ^ 31 - 1" by auto
    with assms(2) True show ?thesis by (simp add: or_one_int)
  next
    case False
    with assms(2) show ?thesis by (simp add: or_one_int)
  qed
qed

lemma bit_or_one:
  "ToNumber v = Some (Finite m) \<Longrightarrow>
     bit_or v (Num 1) = Some (((m OR 1) + 2 ^ 31) mod 2 ^ 32 - 2 ^ 31)"
  by (simp add: bit_or_def safe_def sint_or_one)

lemma bit_or_one_int32:
  assumes "ToNumber v = Some (Finite m)" "- (2 ^ 31) \<le> m" "m < 2 ^ 31"
  shows "bit_or v (Num 1) = Some (if even m then m + 1 else m)"
proof -
  have "((m OR 1) + 2 ^ 31) mod 2 ^ 32 - 2 ^ 31 = m OR 1"
    using or_one_in_range [OF assms(2,3)] by (rule wrap_in_range)
  then show ?thesis
    using bit_or_one [OF assms(1)] by (simp add: or_one_int)
qed

lemma bit_or_NaN: "ToNumber v = Some NaN \<Longrightarrow> bit_or v (Num 1) = Some 1"
  by (simp add: bit_or_def safe_def)

lemma Hotel_find_calm:
  assumes "calm s"
    and "cast_conditions paths (rev conditions) = Some (Inr p)"
  shows "map_option fst (Hotel_find paths conditions Undefined s) =
           Some (Inr (filter p (hotel_coll s)))"
proof -
  obtain s1 where a: "attempt s = (None, s1)" "hotel_coll s1 = hotel_coll s"
    using assms(1) by (rule attempt_passes)
  then show ?thesis
    using assms(2) by (simp add: Hotel_find_def castNumber_absent limited_def)
qed

lemma cast_price_range:
  assumes "castNumber ''cheapestPrice'' lt = Some (Inr (Some hi))"
  shows "cast_condition paths (''cheapestPrice'', PriceRange (Num (sint (w :: 32 word))) lt) =
           Some (Inr (\<lambda>h. sint w < cheapestPrice h \<and> cheapestPrice h < hi))"
  using assms by (simp add: castNumber_int32 between_def)

lemma getHotels_range:
  assumes "calm s"
    and "param q ''limit'' = Undefined"
    and "''cheapestPrice'' \<notin> fst ` set q"
    and "cast_conditions paths
           (rev (map (\<lambda>(k, v). (k, Equals v))
                   (filter (\<lambda>(k, v). k \<noteq> ''min'' \<and> k \<noteq> ''max'') q))) = Some (Inr p)"
    and "castNumber ''cheapestPrice'' (logical_or (param q ''max'') (Num 999)) = Some (Inr (Some hi))"
    and "bit_or (param q ''min'') (Num 1) = Some lo"
  shows "map_option fst (getHotels paths q s) =
           Some [Json 200 (JArray (map JHotel
              (filter (\<lambda>h. p h \<and> lo < cheapestPrice h \<and> cheapestPrice h < hi) (hotel_coll s))))]"
proof -
  let ?others = "map (\<lambda>(k, v). (k, Equals v)) (filter (\<lambda>(k, v). k \<noteq> ''min'' \<and> k \<noteq> ''max'') q)"
  let ?lt = "logical_or (param q ''max'') (Num 999)"
  obtain w :: "32 word" where lo: "lo = sint w"
    using assms(6) by (auto simp: bit_or_def split: option.splits)
  let ?range = "PriceRange (Num (sint w)) ?lt"
  have "''cheapestPrice'' \<notin> fst ` set ?others"
    using assms(3) by force
  then have conds: "put ''cheapestPrice'' ?range ?others = ?others @ [(''cheapestPrice'', ?range)]"
    by (rule put_absent)
  have "cast_conditions paths (rev (put ''cheapestPrice'' ?range ?others)) =
      Some (Inr (\<lambda>h. (sint w < cheapestPrice h \<and> cheapestPrice h < hi) \<and> p h))"
    unfolding conds
    by (simp add: assms(4) cast_price_range [OF assms(5)] del: cast_condition.simps)
  then have "map_option fst (Hotel_find paths (put ''cheapestPrice'' ?range ?others) Undefined s) =
      Some (Inr (filter (\<lambda>h. (sint w < cheapestPrice h \<and> cheapestPrice h < hi) \<and> p h) (hotel_coll s)))"
    using assms(1) by (rule Hotel_find_calm [rotated])
  moreover have "filter (\<lambda>h. (sint w < cheapestPrice h \<and> cheapestPrice h < hi) \<and> p h) (hotel_coll s) =
      filter (\<lambda>h. p h \<and> sint w < cheapestPrice h \<and> cheapestPrice h < hi) (hotel_coll s)"
    by (rule filter_cong) auto
  ultimately have "map_option fst (Hotel_find paths (put ''cheapestPrice'' ?range ?others) Undefined s) =
      Some (Inr (filter (\<lambda>h. p h \<and> sint w < cheapestPrice h \<and> cheapestPrice h < hi) (hotel_coll s)))"
    by simp
  then show ?thesis
    using assms(2,6) unfolding lo
    by (cases "Hotel_find paths (put ''cheapestPrice'' ?range ?others) Undefined s")
      (auto simp: getHotels_def Let_def split: sum.splits)
qed






end
